theory Spec2Isabelle
  imports Main "HOL-Library.Word" "HOL-Library.Monad_Syntax"
begin

section \<open>Go values shared by the commands\<close>

text \<open>
  A Go \<^verbatim>\<open>error\<close> is kept as the text of its \<^verbatim>\<open>Error()\<close> method; a nil error is
  \<open>None\<close>. A call returning \<^verbatim>\<open>(value, err)\<close> is a pair.

  A command of chaincmd.go ends in one of three ways: \<^verbatim>\<open>utils.Fatalf\<close> prints its
  message and exits the process, a runtime panic unwinds it, or the function returns
  its \<^verbatim>\<open>error\<close>.
\<close>

type_synonym error = string

datatype outcome = Fatalf string | Panic | Return "error option"

text \<open>
  \<^verbatim>\<open>*cli.Context\<close>, kept to what the commands read: the positional arguments and
  whether the no-compaction flag is set. \<^verbatim>\<open>Args.Get(n)\<close> is the empty string
  when there is no such argument, and \<^verbatim>\<open>Args.First()\<close> is \<^verbatim>\<open>Get(0)\<close>.
\<close>

record Context =
  Args :: "string list"
  NoCompactionFlag :: bool

definition Args_Get :: "string list \<Rightarrow> nat \<Rightarrow> string" where
  "Args_Get a n = (if n < length a then a ! n else [])"

definition Args_First :: "string list \<Rightarrow> string" where
  "Args_First a = Args_Get a 0"

text \<open>
  What a command prints or logs. Durations and the figures of the memory report are
  left out of the lines that carry them; \<open>LogError\<close> keeps the message and the
  key/value context of \<^verbatim>\<open>log.Error\<close>.
\<close>

datatype printed =
    LogError string "(string \<times> string) list"
  | ImportDone
  | Println string
  | MemoryStats
  | Compacting
  | CompactionDone
  | ExportDone
  | BlockSummary "64 word" nat "64 word" "64 word"

text \<open>
  The state a command works on: \<open>ext\<close> is everything outside the process that the
  helpers of package utils read and write (the chain database, the files), \<open>out\<close> is
  what has been printed and logged.
\<close>

record 's world =
  ext :: 's
  out :: "printed list"

subsection \<open>strconv.ParseUint and strconv.ParseInt, base 10, 64 bits\<close>

text \<open>
  The two functions are Go's standard library, used here with base 10 and bit size 64.
  \<^verbatim>\<open>ParseUint\<close> rejects the empty string, then reads one byte at a time: a byte
  that is not a decimal digit is a syntax error with value 0; a value that would pass
  \<open>2^64 - 1\<close> is a range error with value \<open>2^64 - 1\<close>, reported at the digit where
  it happens. \<^verbatim>\<open>ParseInt\<close> takes one leading sign off, parses the rest unsigned,
  and clamps to the \<^verbatim>\<open>int64\<close> range with a range error (\<open>clamp_int64\<close> is
  that last part of it).
\<close>

datatype NumError = ErrSyntax | ErrRange

definition maxUint64 :: nat where
  "maxUint64 = 2 ^ 64 - 1"

definition is_digit :: "char \<Rightarrow> bool" where
  "is_digit c = (48 \<le> (of_char c :: nat) \<and> (of_char c :: nat) \<le> 57)"

fun parse_digits :: "nat \<Rightarrow> string \<Rightarrow> nat \<times> NumError option" where
  "parse_digits n [] = (n, None)"
| "parse_digits n (c # cs) =
     (if \<not> is_digit c then (0, Some ErrSyntax)
      else if n \<ge> maxUint64 div 10 + 1 then (maxUint64, Some ErrRange)
      else let n1 = n * 10 + (of_char c - 48)
           in if n1 > maxUint64 then (maxUint64, Some ErrRange) else parse_digits n1 cs)"

definition ParseUint :: "string \<Rightarrow> 64 word \<times> NumError option" where
  "ParseUint s =
     (if s = [] then (0, Some ErrSyntax)
      else case parse_digits 0 s of (n, err) \<Rightarrow> (of_nat n, err))"

definition clamp_int64 :: "bool \<Rightarrow> 64 word \<times> NumError option \<Rightarrow> 64 word \<times> NumError option" where
  "clamp_int64 neg r =
     (case r of
        (un, err) \<Rightarrow>
          if err = Some ErrSyntax then (0, err)
          else if \<not> neg \<and> unat un \<ge> 2 ^ 63 then (of_nat (2 ^ 63 - 1), Some ErrRange)
          else if neg \<and> unat un > 2 ^ 63 then (- (2 ^ 63), Some ErrRange)
          else (if neg then - un else un, None))"

definition ParseInt :: "string \<Rightarrow> 64 word \<times> NumError option" where
  "ParseInt s0 =
     (if s0 = [] then (0, Some ErrSyntax)
      else clamp_int64 (hd s0 = CHR ''-'')
             (ParseUint (if hd s0 = CHR ''+'' \<or> hd s0 = CHR ''-'' then tl s0 else s0)))"

section \<open>The state census (chaincmd.go, countTrie and countBlockState)\<close>

text \<open>
  \<^verbatim>\<open>common.Hash\<close> is \<^verbatim>\<open>[32]byte\<close>, kept as the list of its bytes, so that
  \<^verbatim>\<open>Hash.Bytes()\<close> is the hash itself; \<^verbatim>\<open>common.Hash{}\<close> is 32 zero bytes.
  \<open>emptyRoot\<close> is line 495.
\<close>

type_synonym bytes = "8 word list"
type_synonym Hash = bytes

definition zeroHash :: Hash where
  "zeroHash = replicate 32 0"

definition emptyRoot :: Hash where
  "emptyRoot =
     [0x56, 0xe8, 0x1f, 0x17, 0x1b, 0xcc, 0x55, 0xa6, 0xff, 0x83, 0x45, 0xe6, 0x92, 0xc0, 0xf8, 0x6e,
      0x5b, 0x48, 0xe0, 0x1b, 0x99, 0x6c, 0xad, 0xc0, 0x01, 0x62, 0x2f, 0xb5, 0xe3, 0x63, 0xb4, 0x21]"

text \<open>
  \<^verbatim>\<open>state.Account\<close>, kept to the five roots countBlockState reads. The type is
  declared in package state, outside the two source files.
\<close>

record Account =
  Root :: Hash
  TX1Root :: Hash
  TX3Root :: Hash
  ProxiedRoot :: Hash
  RewardRoot :: Hash

text \<open>
  Lines 484-491. Go's \<^verbatim>\<open>int\<close> is 64 bits wide on the platforms the node is built
  for, and its arithmetic wraps around.
\<close>

record nodeData =
  key :: string
  value' :: string

record CountSize =
  Totalnodevaluesize :: "64 word"
  Totalnode :: "64 word"
  Data :: "nodeData list"

text \<open>
  A trie, as countTrie sees it. \<open>NodeIterator\<close> is the sequence of positions at
  which \<^verbatim>\<open>it.Next(true)\<close> returns true before it first returns false: at each
  one either \<^verbatim>\<open>it.Leaf()\<close> is false and \<^verbatim>\<open>it.Hash()\<close> is read, or it is
  true and \<^verbatim>\<open>it.LeafKey()\<close> and \<^verbatim>\<open>it.LeafBlob()\<close> are. \<open>GetKey\<close> is
  \<^verbatim>\<open>t.GetKey\<close>. The iterator and the tries are code of package trie and state.
\<close>

datatype node = Internal Hash | Leaf bytes bytes

record Trie =
  NodeIterator :: "node list"
  GetKey :: "bytes \<Rightarrow> bytes"

text \<open>
  \<^verbatim>\<open>state.Database\<close>: the six ways countBlockState opens a trie. Each returns
  \<^verbatim>\<open>(Trie, error)\<close>; the error is dropped at every call, so a failed call is kept
  as the nil trie it leaves, \<open>None\<close>.
\<close>

record Database =
  OpenTrie :: "Hash \<Rightarrow> Trie option"
  OpenStorageTrie :: "Hash \<Rightarrow> Hash \<Rightarrow> Trie option"
  OpenTX1Trie :: "Hash \<Rightarrow> Hash \<Rightarrow> Trie option"
  OpenTX3Trie :: "Hash \<Rightarrow> Hash \<Rightarrow> Trie option"
  OpenProxiedTrie :: "Hash \<Rightarrow> Hash \<Rightarrow> Trie option"
  OpenRewardTrie :: "Hash \<Rightarrow> Hash \<Rightarrow> Trie option"

text \<open>\<^verbatim>\<open>*types.Block\<close>, kept to its size and the state root of its header.\<close>

record Block =
  Size :: nat
  header_Root :: Hash

text \<open>
  Everything countTrie and countBlockState call outside the two source files, for one
  chain database:
  \<^item> \<open>db_Get\<close> is \<^verbatim>\<open>chainDb.Get\<close>;
  \<^item> \<open>Hash_String\<close> and \<open>Bytes2Hex\<close> are \<^verbatim>\<open>Hash.String()\<close> and
    \<^verbatim>\<open>common.Bytes2Hex\<close>;
  \<^item> \<open>DecodeAccount blob\<close> is the value of \<^verbatim>\<open>data\<close> after
    \<^verbatim>\<open>rlp.DecodeBytes(blob, &data)\<close>, whose error is dropped;
  \<^item> \<open>ReadCanonicalHash\<close> and \<open>ReadBlock\<close> are the functions of package rawdb;
    \<open>ReadBlock\<close> is \<open>None\<close> for the nil block;
  \<^item> \<open>state_New root\<close> is \<^verbatim>\<open>state.New(root, state.NewDatabase(chainDb))\<close> with
    its error dropped: \<open>None\<close> for the nil state it returns with an error, otherwise
    the \<^verbatim>\<open>Database()\<close> of the state;
  \<^item> \<open>OpenFile_error name\<close> is the error of \<^verbatim>\<open>os.OpenFile\<close> for the dump
    file, if it fails.
\<close>

record ChainDb =
  db_Get :: "bytes \<Rightarrow> bytes \<times> error option"
  Hash_String :: "Hash \<Rightarrow> string"
  Bytes2Hex :: "bytes \<Rightarrow> string"
  DecodeAccount :: "bytes \<Rightarrow> Account"
  ReadCanonicalHash :: "64 word \<Rightarrow> Hash"
  ReadBlock :: "Hash \<Rightarrow> 64 word \<Rightarrow> Block option"
  state_New :: "Hash \<Rightarrow> Database option"
  OpenFile_error :: "string \<Rightarrow> error option"

text \<open>
  \<^verbatim>\<open>common.BytesToAddress\<close>: the last 20 bytes, padded with zeros on the left.
\<close>

definition BytesToAddress :: "bytes \<Rightarrow> bytes" where
  "BytesToAddress b =
     (if 20 < length b then drop (length b - 20) b else replicate (20 - length b) 0 @ b)"

text \<open>
  \<^verbatim>\<open>type processLeafTrie func(addr common.Address, account state.Account)\<close>. The
  function countBlockState passes updates the \<^verbatim>\<open>count\<close> it has captured, the one
  countTrie was given: here it takes the count and returns the new one. A runtime
  panic is \<open>None\<close>.
\<close>

type_synonym processLeafTrie = "bytes \<Rightarrow> Account \<Rightarrow> CountSize \<Rightarrow> CountSize option"

text \<open>The loop of countTrie, lines 498-517, over the positions still to come.\<close>

fun countTrie_nodes ::
  "ChainDb \<Rightarrow> Trie \<Rightarrow> processLeafTrie option \<Rightarrow> node list \<Rightarrow> CountSize \<Rightarrow> CountSize option" where
  "countTrie_nodes db t processLeaf [] count = Some count"
| "countTrie_nodes db t processLeaf (Internal h # its) count =
     (let node = fst (db_Get db h)
      in countTrie_nodes db t processLeaf its
           (count\<lparr>Totalnodevaluesize := Totalnodevaluesize count + of_nat (length node),
                  Totalnode := Totalnode count + 1,
                  Data := Data count @ [\<lparr>key = Hash_String db h, value' = Bytes2Hex db node\<rparr>]\<rparr>))"
| "countTrie_nodes db t processLeaf (Leaf k blob # its) count =
     (case processLeaf of
        None \<Rightarrow> countTrie_nodes db t processLeaf its count
      | Some f \<Rightarrow>
          let addr = GetKey t k
          in if length addr = 20
             then (case f (BytesToAddress addr) (DecodeAccount db blob) count of
                     None \<Rightarrow> None
                   | Some count' \<Rightarrow> countTrie_nodes db t processLeaf its count')
             else countTrie_nodes db t processLeaf its count)"

text \<open>
  \<^verbatim>\<open>func countTrie(db, t, count, processLeaf)\<close>, lines 497-518. Calling
  \<^verbatim>\<open>t.NodeIterator\<close> on a nil trie panics.
\<close>

definition countTrie ::
  "ChainDb \<Rightarrow> Trie option \<Rightarrow> CountSize \<Rightarrow> processLeafTrie option \<Rightarrow> CountSize option" where
  "countTrie db t count processLeaf =
     (case t of
        None \<Rightarrow> None
      | Some tr \<Rightarrow> countTrie_nodes db tr processLeaf (NodeIterator tr) count)"

text \<open>The function literal of countBlockState, lines 441-466.\<close>

definition processLeaf_closure :: "ChainDb \<Rightarrow> Database \<Rightarrow> processLeafTrie" where
  "processLeaf_closure chainDb sdb addr account count =
     do {
       c1 \<leftarrow> (if Root account \<noteq> emptyRoot
              then countTrie chainDb (OpenStorageTrie sdb zeroHash (Root account)) count None
              else Some count);
       c2 \<leftarrow> (if TX1Root account \<noteq> emptyRoot
              then countTrie chainDb (OpenTX1Trie sdb zeroHash (TX1Root account)) c1 None
              else Some c1);
       c3 \<leftarrow> (if TX3Root account \<noteq> emptyRoot
              then countTrie chainDb (OpenTX3Trie sdb zeroHash (TX3Root account)) c2 None
              else Some c2);
       c4 \<leftarrow> (if ProxiedRoot account \<noteq> emptyRoot
              then countTrie chainDb (OpenProxiedTrie sdb zeroHash (ProxiedRoot account)) c3 None
              else Some c3);
       (if RewardRoot account \<noteq> emptyRoot
        then countTrie chainDb (OpenRewardTrie sdb zeroHash (RewardRoot account)) c4 None
        else Some c4)
     }"

text \<open>\<^verbatim>\<open>CountSize{}\<close>, the zero value of line 440.\<close>

definition count0 :: CountSize where
  "count0 = \<lparr>Totalnodevaluesize = 0, Totalnode = 0, Data = []\<rparr>"

text \<open>
  \<^verbatim>\<open>func countBlockState(ctx *cli.Context) error\<close>, lines 414-482. \<open>mk chainName\<close>
  stands for the database that \<^verbatim>\<open>makeConfigNode\<close> and
  \<^verbatim>\<open>utils.MakeChainDatabase\<close> open for a chain name; the outside state is the
  content of the files by name. \<^verbatim>\<open>block.Size()\<close> on the nil block and
  \<^verbatim>\<open>statedb.Database()\<close> on the nil state dereference nil and panic. The writes
  to the opened file are taken to succeed (their results are not read).
\<close>

definition countBlockState ::
  "(string \<Rightarrow> ChainDb) \<Rightarrow> Context \<Rightarrow> (string \<rightharpoonup> string) world \<Rightarrow> outcome \<times> (string \<rightharpoonup> string) world" where
  "countBlockState mk ctx w =
     (if length (Args ctx) < 1 then (Fatalf ''This command requires an argument.'', w)
      else
        let chainName = (if Args_Get (Args ctx) 1 = [] then ''pchain'' else Args_Get (Args ctx) 1);
            chainDb = mk chainName;
            height = fst (ParseUint (Args_First (Args ctx)));
            blockhash = ReadCanonicalHash chainDb height
        in case ReadBlock chainDb blockhash height of
             None \<Rightarrow> (Panic, w)
           | Some block \<Rightarrow>
               let bsize = Size block;
                   root = header_Root block
               in (case state_New chainDb (header_Root block) of
                     None \<Rightarrow> (Panic, w)
                   | Some sdb \<Rightarrow>
                       (case countTrie chainDb (OpenTrie sdb root) count0
                               (Some (processLeaf_closure chainDb sdb)) of
                          None \<Rightarrow> (Panic, w)
                        | Some count \<Rightarrow>
                            (case OpenFile_error chainDb ''blockstate_nodedump'' of
                               Some err \<Rightarrow> (Return (Some err), w)
                             | None \<Rightarrow>
                                 (Return None,
                                  w\<lparr>ext := (ext w)(''blockstate_nodedump'' \<mapsto>
                                              concat (map (\<lambda>data. key data @ '' '' @ value' data @ [CHR 0x0A])
                                                        (Data count))),
                                    out := out w @ [BlockSummary height bsize (Totalnode count)
                                                      (Totalnodevaluesize count)]\<rparr>)))))"

subsection \<open>The words of the census contract\<close>

text \<open>
  The definitions below follow the specification, to compare countTrie and the census
  with: the internal nodes of a walk, in order (\<open>internal_nodes\<close>); the account that
  accumulates one node for each hash of a list, the length of the bytes stored under
  it, and one dump pair (\<open>tally\<close>); the sub-tries of an account whose root is not
  the empty root, in the order storage, TX1, TX3, proxied, reward (\<open>sub_tries\<close>); the
  internal nodes of a list of opened tries, if all of them opened (\<open>walk_all\<close>); and
  the internal nodes the census visits from an account trie: its own, and at each leaf
  with a 20-byte key those of the sub-tries of the account (\<open>census_nodes\<close>).
  \<open>walk_tries\<close> is countTrie without a leaf function over a list of tries.
\<close>

fun internal_nodes :: "node list \<Rightarrow> Hash list" where
  "internal_nodes [] = []"
| "internal_nodes (Internal h # its) = h # internal_nodes its"
| "internal_nodes (Leaf k blob # its) = internal_nodes its"

definition tally :: "ChainDb \<Rightarrow> Hash list \<Rightarrow> CountSize \<Rightarrow> CountSize" where
  "tally db hs count =
     count\<lparr>Totalnodevaluesize :=
             Totalnodevaluesize count + of_nat (\<Sum>h\<leftarrow>hs. length (fst (db_Get db h))),
           Totalnode := Totalnode count + of_nat (length hs),
           Data := Data count @
             map (\<lambda>h. \<lparr>key = Hash_String db h, value' = Bytes2Hex db (fst (db_Get db h))\<rparr>) hs\<rparr>"

definition sub_tries :: "Database \<Rightarrow> Account \<Rightarrow> Trie option list" where
  "sub_tries sdb a =
     (if Root a \<noteq> emptyRoot then [OpenStorageTrie sdb zeroHash (Root a)] else []) @
     (if TX1Root a \<noteq> emptyRoot then [OpenTX1Trie sdb zeroHash (TX1Root a)] else []) @
     (if TX3Root a \<noteq> emptyRoot then [OpenTX3Trie sdb zeroHash (TX3Root a)] else []) @
     (if ProxiedRoot a \<noteq> emptyRoot then [OpenProxiedTrie sdb zeroHash (ProxiedRoot a)] else []) @
     (if RewardRoot a \<noteq> emptyRoot then [OpenRewardTrie sdb zeroHash (RewardRoot a)] else [])"

fun walk_all :: "Trie option list \<Rightarrow> Hash list option" where
  "walk_all [] = Some []"
| "walk_all (None # ts) = None"
| "walk_all (Some t # ts) = map_option ((@) (internal_nodes (NodeIterator t))) (walk_all ts)"

fun census_nodes :: "ChainDb \<Rightarrow> Database \<Rightarrow> Trie \<Rightarrow> node list \<Rightarrow> Hash list option" where
  "census_nodes db sdb t [] = Some []"
| "census_nodes db sdb t (Internal h # its) = map_option ((#) h) (census_nodes db sdb t its)"
| "census_nodes db sdb t (Leaf k blob # its) =
     (if length (GetKey t k) = 20
      then (case walk_all (sub_tries sdb (DecodeAccount db blob)) of
              None \<Rightarrow> None
            | Some hs \<Rightarrow> map_option ((@) hs) (census_nodes db sdb t its))
      else census_nodes db sdb t its)"

fun walk_tries :: "ChainDb \<Rightarrow> Trie option list \<Rightarrow> CountSize \<Rightarrow> CountSize option" where
  "walk_tries db [] count = Some count"
| "walk_tries db (t # ts) count =
     (case countTrie db t count None of None \<Rightarrow> None | Some c \<Rightarrow> walk_tries db ts c)"

text \<open>
  The count of the census by the specification: for a root, zero when it is the empty
  root and else the number of internal nodes of the trie it opens; for an account, the
  sum over its five roots; for the census, the internal nodes of the account trie plus
  the sum over its account leaves, the leaves with a 20-byte key (\<open>census_total\<close>).
  \<open>roots_open\<close> says that every root of an account that is not the empty root
  opens. \<open>reopen_empty x sdb\<close> is the database that answers \<open>x\<close> when a sub-trie
  is opened at the empty root and is \<open>sdb\<close> otherwise.
\<close>

definition root_nodes :: "(Hash \<Rightarrow> Trie option) \<Rightarrow> Hash \<Rightarrow> nat" where
  "root_nodes opn r =
     (if r = emptyRoot then 0
      else case opn r of None \<Rightarrow> 0 | Some t \<Rightarrow> length (internal_nodes (NodeIterator t)))"

definition account_nodes :: "Database \<Rightarrow> Account \<Rightarrow> nat" where
  "account_nodes sdb a =
     root_nodes (OpenStorageTrie sdb zeroHash) (Root a) +
     root_nodes (OpenTX1Trie sdb zeroHash) (TX1Root a) +
     root_nodes (OpenTX3Trie sdb zeroHash) (TX3Root a) +
     root_nodes (OpenProxiedTrie sdb zeroHash) (ProxiedRoot a) +
     root_nodes (OpenRewardTrie sdb zeroHash) (RewardRoot a)"

definition root_opens :: "(Hash \<Rightarrow> Trie option) \<Rightarrow> Hash \<Rightarrow> bool" where
  "root_opens opn r = (if r = emptyRoot then True else opn r \<noteq> None)"

definition roots_open :: "Database \<Rightarrow> Account \<Rightarrow> bool" where
  "roots_open sdb a =
     (root_opens (OpenStorageTrie sdb zeroHash) (Root a) \<and>
      root_opens (OpenTX1Trie sdb zeroHash) (TX1Root a) \<and>
      root_opens (OpenTX3Trie sdb zeroHash) (TX3Root a) \<and>
      root_opens (OpenProxiedTrie sdb zeroHash) (ProxiedRoot a) \<and>
      root_opens (OpenRewardTrie sdb zeroHash) (RewardRoot a))"

fun account_leaves :: "ChainDb \<Rightarrow> Trie \<Rightarrow> node list \<Rightarrow> Account list" where
  "account_leaves db t [] = []"
| "account_leaves db t (Internal h # its) = account_leaves db t its"
| "account_leaves db t (Leaf k blob # its) =
     (if length (GetKey t k) = 20 then [DecodeAccount db blob] else []) @ account_leaves db t its"

definition census_total :: "ChainDb \<Rightarrow> Database \<Rightarrow> Trie \<Rightarrow> nat" where
  "census_total db sdb t =
     length (internal_nodes (NodeIterator t)) +
     (\<Sum>a\<leftarrow>account_leaves db t (NodeIterator t). account_nodes sdb a)"

definition reopen_empty :: "Trie option \<Rightarrow> Database \<Rightarrow> Database" where
  "reopen_empty x sdb =
     sdb\<lparr>OpenStorageTrie := (\<lambda>h r. if r = emptyRoot then x else OpenStorageTrie sdb h r),
         OpenTX1Trie := (\<lambda>h r. if r = emptyRoot then x else OpenTX1Trie sdb h r),
         OpenTX3Trie := (\<lambda>h r. if r = emptyRoot then x else OpenTX3Trie sdb h r),
         OpenProxiedTrie := (\<lambda>h r. if r = emptyRoot then x else OpenProxiedTrie sdb h r),
         OpenRewardTrie := (\<lambda>h r. if r = emptyRoot then x else OpenRewardTrie sdb h r)\<rparr>"

subsection \<open>A sample database\<close>

text \<open>
  An account trie with two internal nodes and three leaves. The first leaf is an
  account with a TX1 trie (two internal nodes, one leaf) and a reward trie (one
  internal node); the key of the second has no 20-byte preimage, and its blob would
  decode to an account whose storage root does not open; the third is an account with
  no sub-trie. Nothing opens at the empty root. Height 5 has a block with this state,
  height 8 a block whose state is missing, and no other height has a block.
\<close>

definition h32 :: "8 word \<Rightarrow> Hash" where
  "h32 b = replicate 31 0 @ [b]"

definition addr20 :: "8 word \<Rightarrow> bytes" where
  "addr20 b = replicate 19 0 @ [b]"

definition hex_of_bytes :: "bytes \<Rightarrow> string" where
  "hex_of_bytes bs =
     concat (map (\<lambda>b. [''0123456789abcdef'' ! (unat b div 16), ''0123456789abcdef'' ! (unat b mod 16)]) bs)"

definition tx1_trie :: Trie where
  "tx1_trie = \<lparr>NodeIterator = [Internal (h32 0x11), Leaf [1] [7], Internal (h32 0x12)],
               GetKey = (\<lambda>k. k)\<rparr>"

definition reward_trie :: Trie where
  "reward_trie = \<lparr>NodeIterator = [Internal (h32 0x21)], GetKey = (\<lambda>k. k)\<rparr>"

definition census_trie :: Trie where
  "census_trie =
     \<lparr>NodeIterator = [Internal (h32 1), Leaf [0xA] [1], Internal (h32 2), Leaf [0xB] [2], Leaf [0xC] [3]],
      GetKey = (\<lambda>k. if k = [0xB] then [] else addr20 (hd k))\<rparr>"

definition census_sdb :: Database where
  "census_sdb =
     \<lparr>OpenTrie = (\<lambda>r. if r = h32 0x99 then Some census_trie else None),
      OpenStorageTrie = (\<lambda>h r. None),
      OpenTX1Trie = (\<lambda>h r. if r = h32 0xA1 then Some tx1_trie else None),
      OpenTX3Trie = (\<lambda>h r. None),
      OpenProxiedTrie = (\<lambda>h r. None),
      OpenRewardTrie = (\<lambda>h r. if r = h32 0xA2 then Some reward_trie else None)\<rparr>"

definition census_db :: "string \<Rightarrow> ChainDb" where
  "census_db chainName =
     \<lparr>db_Get = (\<lambda>k. if k = h32 1 then ([1, 2, 3], None)
                    else if k = h32 2 then ([4], None)
                    else if k = h32 0x11 then ([5, 6], None)
                    else if k = h32 0x21 then ([7, 8, 9, 10], None)
                    else ([], Some ''not found'')),
      Hash_String = (\<lambda>h. ''0x'' @ hex_of_bytes h),
      Bytes2Hex = hex_of_bytes,
      DecodeAccount = (\<lambda>blob.
        if blob = [1]
        then \<lparr>Root = emptyRoot, TX1Root = h32 0xA1, TX3Root = emptyRoot, ProxiedRoot = emptyRoot,
              RewardRoot = h32 0xA2\<rparr>
        else if blob = [2]
        then \<lparr>Root = h32 0xEE, TX1Root = emptyRoot, TX3Root = emptyRoot, ProxiedRoot = emptyRoot,
              RewardRoot = emptyRoot\<rparr>
        else \<lparr>Root = emptyRoot, TX1Root = emptyRoot, TX3Root = emptyRoot, ProxiedRoot = emptyRoot,
              RewardRoot = emptyRoot\<rparr>),
      ReadCanonicalHash = (\<lambda>n. if n = 5 then h32 0x55 else if n = 8 then h32 0x58 else zeroHash),
      ReadBlock = (\<lambda>h n. if h = h32 0x55 \<and> n = 5 then Some \<lparr>Size = 600, header_Root = h32 0x99\<rparr>
                         else if h = h32 0x58 \<and> n = 8 then Some \<lparr>Size = 601, header_Root = h32 0x77\<rparr>
                         else None),
      state_New = (\<lambda>r. if r = h32 0x99 then Some census_sdb else None),
      OpenFile_error = (\<lambda>f. None)\<rparr>"

definition no_files :: "(string \<rightharpoonup> string) world" where
  "no_files = \<lparr>ext = Map.empty, out = []\<rparr>"

section \<open>Chain import and export (chaincmd.go, importChain and exportChain)\<close>

text \<open>
  The helpers the two commands call live in package utils and in the database, outside
  the two source files: they are the fields of \<open>ChainEnv\<close>, each a function of the
  outside state \<open>'s\<close>. \<open>mk chainName\<close> below stands for what
  \<^verbatim>\<open>makeConfigNode\<close> and \<^verbatim>\<open>utils.MakeChain\<close> set up for a chain name.
  The deferred \<^verbatim>\<open>Close\<close> calls are left out, and the memory observer that
  importChain starts is the subject of a section of its own: the main routine only reads
  its two counters for the memory report.
\<close>

record 's ChainEnv =
  ImportChain :: "'s \<Rightarrow> string \<Rightarrow> 's \<times> error option"
  chain_Stop :: "'s \<Rightarrow> 's"
  db_Stat :: "'s \<Rightarrow> string \<Rightarrow> string \<times> error option"
  db_Compact :: "'s \<Rightarrow> 's \<times> error option"
  ExportChain :: "'s \<Rightarrow> string \<Rightarrow> 's \<times> error option"
  ExportAppendChain :: "'s \<Rightarrow> string \<Rightarrow> 64 word \<Rightarrow> 64 word \<Rightarrow> 's \<times> error option"

text \<open>
  \<^verbatim>\<open>if err := utils.ImportChain(chain, arg); err != nil { log.Error("Import error", ...) }\<close>,
  the statement both branches of importChain run for a file; \<open>kv\<close> is the context
  logged before the error (none in the first branch, the file in the second).
\<close>

definition import_file :: "'s ChainEnv \<Rightarrow> (string \<times> string) list \<Rightarrow> string \<Rightarrow> 's world \<Rightarrow> 's world" where
  "import_file E kv arg w =
     (case ImportChain E (ext w) arg of
        (s, None) \<Rightarrow> w\<lparr>ext := s\<rparr>
      | (s, Some err) \<Rightarrow>
          w\<lparr>ext := s, out := out w @ [LogError ''Import error'' (kv @ [(''err'', err)])]\<rparr>)"

text \<open>\<^verbatim>\<open>for i, arg := range ctx.Args()\<close> of lines 230-237, from index \<open>i\<close> on.\<close>

fun import_range :: "'s ChainEnv \<Rightarrow> nat \<Rightarrow> string list \<Rightarrow> 's world \<Rightarrow> 's world" where
  "import_range E i [] w = w"
| "import_range E i (arg # args) w =
     (if i = 0 then import_range E (Suc i) args w
      else import_range E (Suc i) args (import_file E [(''file'', arg)] arg w))"

text \<open>
  Reading and printing the two database statistics (lines 243-253 and 276-286): the
  message of the \<^verbatim>\<open>Fatalf\<close> that ended it, if one did.
\<close>

definition print_stats :: "'s ChainEnv \<Rightarrow> 's world \<Rightarrow> string option \<times> 's world" where
  "print_stats E w =
     (case db_Stat E (ext w) ''leveldb.stats'' of
        (stats, Some err) \<Rightarrow> (Some (''Failed to read database stats: '' @ err), w)
      | (stats, None) \<Rightarrow>
          let w1 = w\<lparr>out := out w @ [Println stats]\<rparr>
          in (case db_Stat E (ext w1) ''leveldb.iostats'' of
                (ioStats, Some err) \<Rightarrow> (Some (''Failed to read database iostats: '' @ err), w1)
              | (ioStats, None) \<Rightarrow> (None, w1\<lparr>out := out w1 @ [Println ioStats]\<rparr>)))"

text \<open>importChain from \<^verbatim>\<open>chain.Stop()\<close> on, lines 239-287.\<close>

definition import_finish :: "'s ChainEnv \<Rightarrow> Context \<Rightarrow> 's world \<Rightarrow> outcome \<times> 's world" where
  "import_finish E ctx w1 =
     (let w2 = w1\<lparr>ext := chain_Stop E (ext w1), out := out w1 @ [ImportDone]\<rparr>
      in case print_stats E w2 of
           (Some m, w3) \<Rightarrow> (Fatalf m, w3)
         | (None, w3) \<Rightarrow>
             let w4 = w3\<lparr>out := out w3 @ [MemoryStats]\<rparr>
             in if NoCompactionFlag ctx then (Return None, w4)
                else
                  let w5 = w4\<lparr>out := out w4 @ [Compacting]\<rparr>
                  in case db_Compact E (ext w5) of
                       (s, Some err) \<Rightarrow> (Fatalf (''Compaction failed: '' @ err), w5\<lparr>ext := s\<rparr>)
                     | (s, None) \<Rightarrow>
                         let w6 = w5\<lparr>ext := s, out := out w5 @ [CompactionDone]\<rparr>
                         in case print_stats E w6 of
                              (Some m, w7) \<Rightarrow> (Fatalf m, w7)
                            | (None, w7) \<Rightarrow> (Return None, w7))"

text \<open>\<^verbatim>\<open>func importChain(ctx *cli.Context) error\<close>, lines 189-288.\<close>

definition importChain :: "(string \<Rightarrow> 's ChainEnv) \<Rightarrow> Context \<Rightarrow> 's world \<Rightarrow> outcome \<times> 's world" where
  "importChain mk ctx w =
     (if length (Args ctx) < 1 then (Fatalf ''This command requires an argument.'', w)
      else
        let chainName = Args_First (Args ctx)
        in if chainName = [] then (Fatalf ''This command requires chain name specified.'', w)
           else
             let E = mk chainName;
                 w1 = (if length (Args ctx) = 2 then import_file E [] (Args_Get (Args ctx) 1) w
                       else import_range E 0 (Args ctx) w)
             in import_finish E ctx w1)"

text \<open>
  exportChain from \<^verbatim>\<open>if err != nil\<close> on, lines 325-329, given what the export
  helper returned.
\<close>

definition export_finish :: "'s \<times> error option \<Rightarrow> 's world \<Rightarrow> outcome \<times> 's world" where
  "export_finish r w =
     (case r of
        (s, Some err) \<Rightarrow> (Fatalf (''Export error: '' @ err @ [CHR 0x0A]), w\<lparr>ext := s\<rparr>)
      | (s, None) \<Rightarrow> (Return None, w\<lparr>ext := s, out := out w @ [ExportDone]\<rparr>))"

text \<open>
  \<^verbatim>\<open>func exportChain(ctx *cli.Context) error\<close>, lines 290-330. The bounds are
  \<^verbatim>\<open>int64\<close>: the comparison with 0 is the signed one, and \<^verbatim>\<open>uint64(first)\<close>
  keeps the bits.
\<close>

definition exportChain :: "(string \<Rightarrow> 's ChainEnv) \<Rightarrow> Context \<Rightarrow> 's world \<Rightarrow> outcome \<times> 's world" where
  "exportChain mk ctx w =
     (if length (Args ctx) < 1 then (Fatalf ''This command requires an argument.'', w)
      else
        let chainName = Args_First (Args ctx)
        in if chainName = [] then (Fatalf ''This command requires chain name specified.'', w)
           else
             let E = mk chainName;
                 fp = Args_Get (Args ctx) 1
             in if length (Args ctx) < 4 then export_finish (ExportChain E (ext w) fp) w
                else
                  let (first, ferr) = ParseInt (Args_Get (Args ctx) 2);
                      (last, lerr) = ParseInt (Args_Get (Args ctx) 3)
                  in if ferr \<noteq> None \<or> lerr \<noteq> None
                     then (Fatalf (''Export error in parsing parameters: block number not an integer'' @ [CHR 0x0A]), w)
                     else if first <s 0 \<or> last <s 0
                     then (Fatalf (''Export error: block number must be greater than 0'' @ [CHR 0x0A]), w)
                     else export_finish (ExportAppendChain E (ext w) fp first last) w)"

text \<open>
  A sample node. Its outside state is the list of blocks in the database followed by a
  log of the export calls made. A file named \<open>bad\<close> holds one good block and then a
  record that does not decode; any other file holds one block, named after the file.
\<close>

definition sample_env :: "string \<Rightarrow> (string list) ChainEnv" where
  "sample_env chainName =
     \<lparr>ImportChain = (\<lambda>s fn. if fn = ''bad'' then (s @ [''bad/1''], Some ''decode error'')
                             else (s @ [fn], None)),
      chain_Stop = (\<lambda>s. s),
      db_Stat = (\<lambda>s k. (k, None)),
      db_Compact = (\<lambda>s. (s, None)),
      ExportChain = (\<lambda>s fp. (s @ [''export all to '' @ fp], None)),
      ExportAppendChain = (\<lambda>s fp first last. (s @ [''export range to '' @ fp], None))\<rparr>"

definition sample_world :: "(string list) world" where
  "sample_world = \<lparr>ext = [], out = []\<rparr>"

text \<open>
  The words of the import contract, to compare importChain with. \<open>import_each\<close> is
  the outside state after every file of a list has been handed to
  \<^verbatim>\<open>utils.ImportChain\<close> in order, each on the state the one before it left,
  whatever error that one returned. \<open>import_errors\<close> is the log of the files that
  failed on the way.
\<close>

fun import_each :: "'s ChainEnv \<Rightarrow> 's \<Rightarrow> string list \<Rightarrow> 's" where
  "import_each E s [] = s"
| "import_each E s (fn # fns) = import_each E (fst (ImportChain E s fn)) fns"

fun import_errors :: "'s ChainEnv \<Rightarrow> 's \<Rightarrow> string list \<Rightarrow> printed list" where
  "import_errors E s [] = []"
| "import_errors E s (fn # fns) =
     (case snd (ImportChain E s fn) of
        None \<Rightarrow> []
      | Some err \<Rightarrow> [LogError ''Import error'' [(''file'', fn), (''err'', err)]])
     @ import_errors E (fst (ImportChain E s fn)) fns"

section \<open>The peak-memory observer of importChain\<close>

text \<open>
  chaincmd.go, importChain, lines 207-221. The goroutine owns two counters,
  \<^verbatim>\<open>var peakMemAlloc, peakMemSys uint64\<close>, and is their only writer; the
  main routine reads them once, when it prints the memory statistics. One turn of its
  \<^verbatim>\<open>for\<close> loop reads the runtime statistics and raises each counter that is
  below the sampled value. \<^verbatim>\<open>runtime.MemStats\<close> is kept to the two fields read.
\<close>

record MemStats =
  Alloc :: "64 word"
  Sys :: "64 word"

record Peaks =
  peakMemAlloc :: "64 word"
  peakMemSys :: "64 word"

definition sample_step :: "MemStats \<Rightarrow> Peaks \<Rightarrow> Peaks" where
  "sample_step stats p =
     (let p1 = (if peakMemAlloc p < Alloc stats then p\<lparr>peakMemAlloc := Alloc stats\<rparr> else p)
      in (if peakMemSys p1 < Sys stats then p1\<lparr>peakMemSys := Sys stats\<rparr> else p1))"

text \<open>
  The loop has no exit. \<open>observer mem n\<close> is the pair of counters after \<open>n\<close> turns,
  where \<open>mem i\<close> is what \<^verbatim>\<open>runtime.ReadMemStats\<close> reports in turn \<open>i\<close>; both
  counters start at zero.
\<close>

fun observer :: "(nat \<Rightarrow> MemStats) \<Rightarrow> nat \<Rightarrow> Peaks" where
  "observer mem 0 = \<lparr>peakMemAlloc = 0, peakMemSys = 0\<rparr>"
| "observer mem (Suc n) = sample_step (mem n) (observer mem n)"

definition mem_example :: "nat \<Rightarrow> MemStats" where
  "mem_example i = (if i = 0 then \<lparr>Alloc = 7, Sys = 9\<rparr> else \<lparr>Alloc = 3, Sys = 12\<rparr>)"

section \<open>The service lifecycle object (go-common/service.go)\<close>

text \<open>
  \<^verbatim>\<open>BaseService\<close> holds two \<^verbatim>\<open>uint32\<close> flags that are read and written
  atomically, the \<^verbatim>\<open>Quit\<close> channel and a reference \<^verbatim>\<open>impl\<close> to the service
  that embeds it. The embedding struct is kept as its private fields, \<open>impl_state\<close>,
  and the table of its three hook methods, a \<open>Service\<close>, which the functions below
  take as their first argument \<open>impl\<close>. A hook is a method of the struct that embeds
  the \<^verbatim>\<open>BaseService\<close>: it can call \<^verbatim>\<open>Start\<close>, \<^verbatim>\<open>Stop\<close> and
  \<^verbatim>\<open>Reset\<close> on it as well as write its own fields, so it is a function of the
  whole service. A hook that panics (as \<^verbatim>\<open>BaseService.OnReset\<close> does) or does not
  return is \<open>None\<close>, and so is a call of \<open>Start\<close>, \<open>Stop\<close> or \<open>Reset\<close>
  that a panic ends.
  The logger is either nil (\<open>None\<close>) or the lines it has been given so far; a line
  records the format used and the service name.
\<close>

datatype chan = Open | Closed

datatype log_line =
    Starting string | StartingFailed error | Started string | NotStarting string
  | Stopping string | Stopped string | StoppingIgnored string | CantReset string

record 'i BaseService =
  logger :: "log_line list option"
  name :: string
  started :: "32 word"
  stopped :: "32 word"
  Quit :: chan
  impl_state :: 'i

record 'i Service =
  OnStart :: "'i BaseService \<Rightarrow> ('i BaseService \<times> error option) option"
  OnStop :: "'i BaseService \<Rightarrow> 'i BaseService option"
  OnReset :: "'i BaseService \<Rightarrow> ('i BaseService \<times> error option) option"

definition NewBaseService :: "log_line list option \<Rightarrow> string \<Rightarrow> 'i \<Rightarrow> 'i BaseService" where
  "NewBaseService lg nm st =
     \<lparr>logger = lg, name = nm, started = 0, stopped = 0, Quit = Open, impl_state = st\<rparr>"

text \<open>
  \<^verbatim>\<open>atomic.CompareAndSwapUint32(&v, old, new)\<close>: whether the swap happened, and the
  value of \<open>v\<close> afterwards.
\<close>

definition CompareAndSwapUint32 :: "32 word \<Rightarrow> 32 word \<Rightarrow> 32 word \<Rightarrow> bool \<times> 32 word" where
  "CompareAndSwapUint32 v old new = (if v = old then (True, new) else (False, v))"

text \<open>\<^verbatim>\<open>if bs.logger != nil { bs.logger.Infof(...) }\<close> and its siblings.\<close>

definition logf :: "log_line \<Rightarrow> 'i BaseService \<Rightarrow> 'i BaseService" where
  "logf l bs = (case logger bs of None \<Rightarrow> bs | Some ls \<Rightarrow> bs\<lparr>logger := Some (ls @ [l])\<rparr>)"

text \<open>
  \<^verbatim>\<open>func (bs *BaseService) Start() (bool, error)\<close>, lines 87-118, in three parts:
  \<open>before_OnStart\<close> is lines 89-97, from the successful swap (which left \<open>v\<close> in
  \<^verbatim>\<open>started\<close>) to the new \<^verbatim>\<open>Quit\<close> channel; \<open>after_OnStart\<close> is lines
  99-111, given what \<^verbatim>\<open>bs.impl.OnStart()\<close> of line 98 returned and the service as
  the hook left it; \<open>Start\<close> is the whole method.
\<close>

definition before_OnStart :: "32 word \<Rightarrow> 'i BaseService \<Rightarrow> 'i BaseService" where
  "before_OnStart v bs =
     (let bs1 = logf (Starting (name bs)) (bs\<lparr>started := v\<rparr>);
          bs2 = (if stopped bs1 = 1 then bs1\<lparr>stopped := 0\<rparr> else bs1)
      in bs2\<lparr>Quit := Open\<rparr>)"

definition after_OnStart ::
  "('i BaseService \<times> error option) option \<Rightarrow> ((bool \<times> error option) \<times> 'i BaseService) option" where
  "after_OnStart r =
     (case r of
        None \<Rightarrow> None
      | Some (bs4, Some e) \<Rightarrow> Some ((False, Some e), logf (StartingFailed e) (bs4\<lparr>started := 0\<rparr>))
      | Some (bs4, None) \<Rightarrow> Some ((True, None), logf (Started (name bs4)) bs4))"

definition Start :: "'i Service \<Rightarrow> 'i BaseService \<Rightarrow> ((bool \<times> error option) \<times> 'i BaseService) option" where
  "Start impl bs =
     (case CompareAndSwapUint32 (started bs) 0 1 of
        (True, v) \<Rightarrow> after_OnStart (OnStart impl (before_OnStart v bs))
      | (False, v) \<Rightarrow> Some ((False, None), logf (NotStarting (name bs)) bs))"

text \<open>
  \<^verbatim>\<open>func (bs *BaseService) Stop() bool\<close>, lines 126-146. Closing a channel that is
  already closed panics.
\<close>

definition Stop :: "'i Service \<Rightarrow> 'i BaseService \<Rightarrow> (bool \<times> 'i BaseService) option" where
  "Stop impl bs =
     (case CompareAndSwapUint32 (stopped bs) 0 1 of
        (True, v) \<Rightarrow>
          (case OnStop impl (logf (Stopping (name bs)) (bs\<lparr>stopped := v\<rparr>)) of
             None \<Rightarrow> None
           | Some bs2 \<Rightarrow>
               (case Quit bs2 of
                  Closed \<Rightarrow> None
                | Open \<Rightarrow>
                    let bs3 = bs2\<lparr>Quit := Closed\<rparr>;
                        bs4 = (if started bs3 = 1 then bs3\<lparr>started := 0\<rparr> else bs3)
                    in Some (True, logf (Stopped (name bs4)) bs4)))
      | (False, v) \<Rightarrow> Some (False, logf (StoppingIgnored (name bs)) bs))"

text \<open>
  \<^verbatim>\<open>func (bs *BaseService) Reset() (bool, error)\<close>, lines 154-169;
  \<open>before_OnReset\<close> is lines 157-159, up to the call of the hook.
\<close>

definition before_OnReset :: "32 word \<Rightarrow> 'i BaseService \<Rightarrow> 'i BaseService" where
  "before_OnReset v bs =
     (let bs1 = bs\<lparr>stopped := v\<rparr>;
          bs2 = bs1\<lparr>started := snd (CompareAndSwapUint32 (started bs1) 1 0)\<rparr>
      in bs2\<lparr>Quit := Open\<rparr>)"

definition Reset :: "'i Service \<Rightarrow> 'i BaseService \<Rightarrow> ((bool \<times> error option) \<times> 'i BaseService) option" where
  "Reset impl bs =
     (case CompareAndSwapUint32 (stopped bs) 1 0 of
        (True, v) \<Rightarrow>
          (case OnReset impl (before_OnReset v bs) of
             None \<Rightarrow> None
           | Some (bs4, err) \<Rightarrow> Some ((True, err), bs4))
      | (False, v) \<Rightarrow> Some ((False, None), logf (CantReset (name bs)) bs))"

text \<open>\<^verbatim>\<open>func (bs *BaseService) IsRunning() bool\<close>, lines 178-180.\<close>

definition IsRunning :: "'i BaseService \<Rightarrow> bool" where
  "IsRunning bs = (started bs = 1 \<and> stopped bs = 0)"

text \<open>
  The services a program can hold: a new one, and whatever \<open>Start\<close>, \<open>Stop\<close> and
  \<open>Reset\<close> return for one it holds, in any order.
\<close>

inductive reachable :: "'i Service \<Rightarrow> 'i BaseService \<Rightarrow> bool" for impl :: "'i Service" where
  reachable_New: "reachable impl (NewBaseService lg nm st)"
| reachable_Start: "reachable impl bs \<Longrightarrow> Start impl bs = Some (r, bs') \<Longrightarrow> reachable impl bs'"
| reachable_Stop: "reachable impl bs \<Longrightarrow> Stop impl bs = Some (b, bs') \<Longrightarrow> reachable impl bs'"
| reachable_Reset: "reachable impl bs \<Longrightarrow> Reset impl bs = Some (r, bs') \<Longrightarrow> reachable impl bs'"

text \<open>
  The atomic operations of service.go store 0 or 1 and nothing else (\<open>flags_ok\<close>). A
  hook has no way to the two flags but the methods of the service, so it returns a
  service whose flags are still 0 or 1 (\<open>hooks_ok\<close>). \<open>keeps_flags\<close> says more of a
  hook: whenever it returns, the two flags are as it found them, as they are when the
  hook works on the fields of its own struct and makes no call of \<open>Stop\<close> or
  \<open>Reset\<close> that takes effect.
\<close>

definition flags_ok :: "'i BaseService \<Rightarrow> bool" where
  "flags_ok bs = ((started bs = 0 \<or> started bs = 1) \<and> (stopped bs = 0 \<or> stopped bs = 1))"

definition hooks_ok :: "'i Service \<Rightarrow> bool" where
  "hooks_ok impl =
     ((\<forall>b b' e. flags_ok b \<longrightarrow> OnStart impl b = Some (b', e) \<longrightarrow> flags_ok b') \<and>
      (\<forall>b b'. flags_ok b \<longrightarrow> OnStop impl b = Some b' \<longrightarrow> flags_ok b') \<and>
      (\<forall>b b' e. flags_ok b \<longrightarrow> OnReset impl b = Some (b', e) \<longrightarrow> flags_ok b'))"

definition keeps_flags :: "('i BaseService \<Rightarrow> ('i BaseService \<times> error option) option) \<Rightarrow> bool" where
  "keeps_flags hook =
     (\<forall>b b' e. hook b = Some (b', e) \<longrightarrow> started b' = started b \<and> stopped b' = stopped b)"

text \<open>
  The calls a program can make on a service other than \<open>Stop\<close> (\<open>Wait\<close> apart,
  which blocks), and the service after a sequence of them; \<open>IsRunning\<close> and
  \<open>String\<close> only read.
\<close>

datatype call = CallStart | CallReset | CallIsRunning | CallString

fun run_calls :: "'i Service \<Rightarrow> call list \<Rightarrow> 'i BaseService \<Rightarrow> 'i BaseService option" where
  "run_calls impl [] bs = Some bs"
| "run_calls impl (CallStart # cs) bs =
     (case Start impl bs of None \<Rightarrow> None | Some (r, bs') \<Rightarrow> run_calls impl cs bs')"
| "run_calls impl (CallReset # cs) bs =
     (case Reset impl bs of None \<Rightarrow> None | Some (r, bs') \<Rightarrow> run_calls impl cs bs')"
| "run_calls impl (CallIsRunning # cs) bs = run_calls impl cs bs"
| "run_calls impl (CallString # cs) bs = run_calls impl cs bs"

text \<open>
  Sample services. The \<open>OnStart\<close> of \<open>flaky\<close> counts its calls in the private
  state and fails on the first of them; \<open>svc0\<close>, \<open>svc1\<close> and \<open>svc2\<close> are the
  states a service with these hooks goes through. \<open>quiet\<close> has the hooks of
  \<^verbatim>\<open>BaseService\<close> itself. The \<open>OnStart\<close> of \<open>stopper\<close> counts its calls and
  then calls \<open>Stop\<close> on its own service (\<open>stopper\<close> has the \<open>OnStop\<close> of
  \<open>quiet\<close>, so that is \<open>Stop quiet\<close>); \<open>halted n\<close> is the state it leaves after
  \<open>n\<close> calls.
\<close>

definition flaky :: "nat Service" where
  "flaky = \<lparr>OnStart = (\<lambda>b. Some (b\<lparr>impl_state := Suc (impl_state b)\<rparr>,
                               if impl_state b = 0 then Some ''boom'' else None)),
            OnStop = (\<lambda>b. Some b), OnReset = (\<lambda>b. None)\<rparr>"

definition quiet :: "nat Service" where
  "quiet = \<lparr>OnStart = (\<lambda>b. Some (b, None)), OnStop = (\<lambda>b. Some b), OnReset = (\<lambda>b. None)\<rparr>"

definition stopper :: "nat Service" where
  "stopper = \<lparr>OnStart = (\<lambda>b. case Stop quiet (b\<lparr>impl_state := Suc (impl_state b)\<rparr>) of
                                None \<Rightarrow> None | Some (r, b') \<Rightarrow> Some (b', None)),
              OnStop = (\<lambda>b. Some b), OnReset = (\<lambda>b. None)\<rparr>"

definition svc0 :: "nat BaseService" where
  "svc0 = NewBaseService (Some []) ''svc'' 0"

definition svc1 :: "nat BaseService" where
  "svc1 = \<lparr>logger = Some [Starting ''svc'', StartingFailed ''boom''], name = ''svc'',
            started = 0, stopped = 0, Quit = Open, impl_state = 1\<rparr>"

definition svc2 :: "nat BaseService" where
  "svc2 = \<lparr>logger = Some [Starting ''svc'', StartingFailed ''boom'', Starting ''svc'',
                          Started ''svc''],
            name = ''svc'', started = 1, stopped = 0, Quit = Open, impl_state = 2\<rparr>"

definition halted :: "nat \<Rightarrow> nat BaseService" where
  "halted n = \<lparr>logger = None, name = ''svc'', started = 0, stopped = 1, Quit = Closed, impl_state = n\<rparr>"

section \<open>Properties of the state census\<close>

lemma tally_Nil [simp]: "tally db [] count = count"
  by (simp add: tally_def)

lemma tally_Cons:
  "tally db (h # hs) count =
     tally db hs
       (count\<lparr>Totalnodevaluesize := Totalnodevaluesize count + of_nat (length (fst (db_Get db h))),
              Totalnode := Totalnode count + 1,
              Data := Data count @ [\<lparr>key = Hash_String db h, value' = Bytes2Hex db (fst (db_Get db h))\<rparr>]\<rparr>)"
  by (simp add: tally_def ac_simps)

lemma tally_append: "tally db (xs @ ys) count = tally db ys (tally db xs count)"
  by (simp add: tally_def ac_simps)

lemma countTrie_nodes_opaque:
  "countTrie_nodes db t None its count = Some (tally db (internal_nodes its) count)"
  by (induction its arbitrary: count rule: internal_nodes.induct) (simp_all add: tally_Cons Let_def)

lemma walk_tries_tally:
  "walk_tries db ts count = map_option (\<lambda>hs. tally db hs count) (walk_all ts)"
proof (induction ts arbitrary: count)
  case Nil
  show ?case by simp
next
  case (Cons a ts)
  show ?case
  proof (cases a)
    case None
    then show ?thesis by (simp add: countTrie_def)
  next
    case (Some tr)
    then show ?thesis
      by (simp add: countTrie_def countTrie_nodes_opaque Cons.IH option.map_comp o_def tally_append)
  qed
qed

lemma walk_tries_append:
  "walk_tries db (xs @ ys) = (\<lambda>c. Option.bind (walk_tries db xs c) (walk_tries db ys))"
proof
  fix c
  show "walk_tries db (xs @ ys) c = Option.bind (walk_tries db xs c) (walk_tries db ys)"
    by (induction xs arbitrary: c) (simp_all split: option.splits)
qed

lemma walk_tries_guarded:
  "walk_tries db (if P then [t] else []) =
     (\<lambda>c. if P then countTrie db t c None else Some c)"
  by (rule ext) (simp split: option.splits)

lemma processLeaf_closure_walk:
  "processLeaf_closure db sdb addr a count = walk_tries db (sub_tries sdb a) count"
  by (simp only: processLeaf_closure_def sub_tries_def walk_tries_append walk_tries_guarded)

lemma census_walk:
  "countTrie_nodes db t (Some (processLeaf_closure db sdb)) its count =
     map_option (\<lambda>hs. tally db hs count) (census_nodes db sdb t its)"
proof (induction its arbitrary: count rule: internal_nodes.induct)
  case 1
  show ?case by simp
next
  case (2 h its)
  show ?case by (simp add: "2.IH" Let_def option.map_comp o_def tally_Cons)
next
  case (3 k blob its)
  have cl: "processLeaf_closure db sdb (BytesToAddress (GetKey t k)) (DecodeAccount db blob) count =
              map_option (\<lambda>hs. tally db hs count) (walk_all (sub_tries sdb (DecodeAccount db blob)))"
    by (simp only: processLeaf_closure_walk walk_tries_tally)
  show ?case
  proof (cases "length (GetKey t k) = 20")
    case False
    then show ?thesis by (simp add: "3.IH")
  next
    case True
    show ?thesis
    proof (cases "walk_all (sub_tries sdb (DecodeAccount db blob))")
      case None
      with True cl show ?thesis by simp
    next
      case (Some hs)
      with True cl show ?thesis
        by (simp add: "3.IH" option.map_comp o_def tally_append)
    qed
  qed
qed

lemma countTrie_nodes_append:
  "countTrie_nodes db t pl (xs @ ys) count =
     (case countTrie_nodes db t pl xs count of None \<Rightarrow> None | Some c \<Rightarrow> countTrie_nodes db t pl ys c)"
  by (induction db t pl xs count rule: countTrie_nodes.induct)
     (simp_all add: Let_def split: option.splits)

lemma h32_eq [simp]: "h32 a = h32 b \<longleftrightarrow> a = b"
  by (simp add: h32_def)

lemma h32_not_empty [simp]: "h32 b \<noteq> emptyRoot" "emptyRoot \<noteq> h32 b"
proof -
  have "hd (h32 b) = 0" by (simp add: h32_def hd_append)
  moreover have "hd emptyRoot = 0x56" by (simp add: emptyRoot_def)
  ultimately have "hd (h32 b) \<noteq> hd emptyRoot" by simp
  then show "h32 b \<noteq> emptyRoot" by auto
  then show "emptyRoot \<noteq> h32 b" by (rule not_sym)
qed

lemma length_addr20 [simp]: "length (addr20 b) = 20"
  by (simp add: addr20_def)

lemmas census_sample_defs =
  census_db_def census_sdb_def census_trie_def tx1_trie_def reward_trie_def

lemma census_nodes_sample:
  "census_nodes (census_db n) census_sdb census_trie (NodeIterator census_trie) =
     Some [h32 1, h32 0x11, h32 0x12, h32 0x21, h32 2]"
  by (simp add: census_sample_defs sub_tries_def)

lemma tally_sample:
  "tally (census_db n) [h32 1, h32 0x11, h32 0x12, h32 0x21, h32 2] count0 =
     \<lparr>Totalnodevaluesize = 10, Totalnode = 5,
      Data = map (\<lambda>h. \<lparr>key = ''0x'' @ hex_of_bytes h,
                         value' = hex_of_bytes (fst (db_Get (census_db n) h))\<rparr>)
               [h32 1, h32 0x11, h32 0x12, h32 0x21, h32 2]\<rparr>"
  by (simp add: tally_def count0_def census_db_def)

text \<open>
  Claim C1. At an internal node, whatever the leaf function, the walk adds the length of
  the bytes \<open>db_Get\<close> returns for its hash (nothing, when the key is absent) to the
  size, one to the node count, and one dump pair, and goes on. So a walk without a leaf
  function, as the census does for every sub-trie, returns the tally of the internal
  nodes of the trie in the order of the visit, and its leaves add nothing. The walk of
  the account trie returns the tally of its own internal nodes and, at each leaf with a
  20-byte key, of the internal nodes of the sub-tries of the account; it panics exactly
  when one of them does not open.
\<close>

theorem countTrie_counts_internal_nodes:
  "countTrie_nodes db t processLeaf (xs @ Internal h # ys) count =
     (case countTrie_nodes db t processLeaf xs count of
        None \<Rightarrow> None
      | Some c \<Rightarrow>
          countTrie_nodes db t processLeaf ys
            (c\<lparr>Totalnodevaluesize := Totalnodevaluesize c + of_nat (length (fst (db_Get db h))),
               Totalnode := Totalnode c + 1,
               Data := Data c @ [\<lparr>key = Hash_String db h,
                                  value' = Bytes2Hex db (fst (db_Get db h))\<rparr>]\<rparr>)) \<and>
   countTrie db (Some t) count None = Some (tally db (internal_nodes (NodeIterator t)) count) \<and>
   countTrie db (Some t) count (Some (processLeaf_closure db sdb)) =
     map_option (\<lambda>hs. tally db hs count) (census_nodes db sdb t (NodeIterator t))"
proof (intro conjI)
  show "countTrie_nodes db t processLeaf (xs @ Internal h # ys) count =
     (case countTrie_nodes db t processLeaf xs count of
        None \<Rightarrow> None
      | Some c \<Rightarrow>
          countTrie_nodes db t processLeaf ys
            (c\<lparr>Totalnodevaluesize := Totalnodevaluesize c + of_nat (length (fst (db_Get db h))),
               Totalnode := Totalnode c + 1,
               Data := Data c @ [\<lparr>key = Hash_String db h,
                                  value' = Bytes2Hex db (fst (db_Get db h))\<rparr>]\<rparr>))"
    by (simp add: countTrie_nodes_append Let_def split: option.splits)
  show "countTrie db (Some t) count None = Some (tally db (internal_nodes (NodeIterator t)) count)"
    by (simp add: countTrie_def countTrie_nodes_opaque)
  show "countTrie db (Some t) count (Some (processLeaf_closure db sdb)) =
          map_option (\<lambda>hs. tally db hs count) (census_nodes db sdb t (NodeIterator t))"
    by (simp add: countTrie_def census_walk)
qed

theorem countTrie_counts_internal_nodes_witness:
  "countTrie (census_db ''pchain'') (Some tx1_trie) count0 None =
     Some (tally (census_db ''pchain'') [h32 0x11, h32 0x12] count0) \<and>
   countTrie (census_db ''pchain'') (Some census_trie) count0
       (Some (processLeaf_closure (census_db ''pchain'') census_sdb)) =
     Some (tally (census_db ''pchain'') [h32 1, h32 0x11, h32 0x12, h32 0x21, h32 2] count0) \<and>
   Totalnode (tally (census_db ''pchain'') [h32 1, h32 0x11, h32 0x12, h32 0x21, h32 2] count0) = 5 \<and>
   Totalnodevaluesize (tally (census_db ''pchain'') [h32 1, h32 0x11, h32 0x12, h32 0x21, h32 2] count0) = 10"
proof -
  have a: "internal_nodes (NodeIterator tx1_trie) = [h32 0x11, h32 0x12]"
    by (simp add: tx1_trie_def)
  from countTrie_counts_internal_nodes [where db = "census_db ''pchain''" and t = tx1_trie
      and count = count0 and sdb = census_sdb and xs = "[]" and ys = "[]" and processLeaf = None]
  have 1: "countTrie (census_db ''pchain'') (Some tx1_trie) count0 None =
             Some (tally (census_db ''pchain'') [h32 0x11, h32 0x12] count0)"
    by (simp add: a)
  from countTrie_counts_internal_nodes [where db = "census_db ''pchain''" and t = census_trie
      and count = count0 and sdb = census_sdb and xs = "[]" and ys = "[]" and processLeaf = None]
  have 2: "countTrie (census_db ''pchain'') (Some census_trie) count0
               (Some (processLeaf_closure (census_db ''pchain'') census_sdb)) =
             Some (tally (census_db ''pchain'') [h32 1, h32 0x11, h32 0x12, h32 0x21, h32 2] count0)"
    by (simp add: census_nodes_sample)
  from 1 2 show ?thesis by (simp add: tally_sample)
qed

lemma walk_all_append:
  "map_option length (walk_all (xs @ ys)) =
     (case map_option length (walk_all xs) of
        None \<Rightarrow> None
      | Some n \<Rightarrow> map_option ((+) n) (map_option length (walk_all ys)))"
proof (induction xs rule: walk_all.induct)
  case 1
  show ?case by (simp add: option.map_comp o_def option.map_ident)
next
  case (2 ts)
  show ?case by simp
next
  case (3 t ts)
  then show ?case
    by (cases "walk_all ts"; cases "walk_all ys"; cases "walk_all (ts @ ys)") simp_all
qed

lemma walk_all_guarded:
  "root_opens opn r \<Longrightarrow>
     map_option length (walk_all (if r \<noteq> emptyRoot then [opn r] else [])) = Some (root_nodes opn r)"
  by (auto simp: root_opens_def root_nodes_def split: if_splits)

lemma walk_all_sub_tries:
  assumes "roots_open sdb a"
  shows "map_option length (walk_all (sub_tries sdb a)) = Some (account_nodes sdb a)"
proof -
  from assms have o:
    "root_opens (OpenStorageTrie sdb zeroHash) (Root a)"
    "root_opens (OpenTX1Trie sdb zeroHash) (TX1Root a)"
    "root_opens (OpenTX3Trie sdb zeroHash) (TX3Root a)"
    "root_opens (OpenProxiedTrie sdb zeroHash) (ProxiedRoot a)"
    "root_opens (OpenRewardTrie sdb zeroHash) (RewardRoot a)"
    by (simp_all add: roots_open_def)
  show ?thesis
    unfolding sub_tries_def account_nodes_def
    by (simp only: walk_all_append walk_all_guarded [OF o(1)] walk_all_guarded [OF o(2)]
          walk_all_guarded [OF o(3)] walk_all_guarded [OF o(4)] walk_all_guarded [OF o(5)]
          option.case option.map add.assoc)
qed

lemma census_nodes_length:
  "\<forall>a \<in> set (account_leaves db t its). roots_open sdb a \<Longrightarrow>
     map_option length (census_nodes db sdb t its) =
       Some (length (internal_nodes its) + (\<Sum>a\<leftarrow>account_leaves db t its. account_nodes sdb a))"
proof (induction its rule: internal_nodes.induct)
  case 1
  show ?case by simp
next
  case (2 h its)
  then show ?case by (cases "census_nodes db sdb t its") simp_all
next
  case (3 k blob its)
  show ?case
  proof (cases "length (GetKey t k) = 20")
    case False
    with 3 show ?thesis by simp
  next
    case True
    with "3.prems" have o: "roots_open sdb (DecodeAccount db blob)"
      and r: "\<forall>a \<in> set (account_leaves db t its). roots_open sdb a"
      by simp_all
    from walk_all_sub_tries [OF o] obtain hs where
      hs: "walk_all (sub_tries sdb (DecodeAccount db blob)) = Some hs"
      and l: "length hs = account_nodes sdb (DecodeAccount db blob)"
      by auto
    from "3.IH" [OF r] obtain gs where
      gs: "census_nodes db sdb t its = Some gs"
      and m: "length gs = length (internal_nodes its) + (\<Sum>a\<leftarrow>account_leaves db t its. account_nodes sdb a)"
      by auto
    from True hs l gs m show ?thesis by simp
  qed
qed

lemma reopen_empty_sub_tries: "sub_tries (reopen_empty x sdb) a = sub_tries sdb a"
  by (simp add: sub_tries_def reopen_empty_def)

lemma reopen_empty_closure:
  "processLeaf_closure db (reopen_empty x sdb) = processLeaf_closure db sdb"
  by (intro ext) (simp add: processLeaf_closure_walk reopen_empty_sub_tries)

lemma sint_of_nat_small: "n < 2 ^ 63 \<Longrightarrow> sint (of_nat n :: 64 word) = int n"
proof -
  assume "n < 2 ^ 63"
  then have "int n < 2 ^ 63" by (metis of_nat_less_iff of_nat_numeral of_nat_power)
  then have "signed_take_bit 63 (int n) = int n"
    by (intro signed_take_bit_int_eq_self) simp_all
  moreover have "sint (of_nat n :: 64 word) = signed_take_bit 63 (int n)"
    using sint_sbintrunc' [of "int n", where 'a = 64] by simp
  ultimately show ?thesis by simp
qed

lemma account_leaves_sample:
  "account_leaves (census_db n) census_trie (NodeIterator census_trie) =
     [\<lparr>Root = emptyRoot, TX1Root = h32 0xA1, TX3Root = emptyRoot, ProxiedRoot = emptyRoot,
       RewardRoot = h32 0xA2\<rparr>,
      \<lparr>Root = emptyRoot, TX1Root = emptyRoot, TX3Root = emptyRoot, ProxiedRoot = emptyRoot,
       RewardRoot = emptyRoot\<rparr>]"
  by (simp add: census_db_def census_trie_def)

text \<open>
  Claim C2. When every root of every account leaf that is not the empty root opens, the
  census returns, and its node count is the number of internal nodes of the account
  trie plus, for each account leaf and each of its five roots other than the empty
  root, the number of internal nodes of the trie opened there; as a Go \<open>int\<close> it is
  that number whenever the number is below \<open>2^63\<close>. An empty root adds nothing
  and is not opened: the census is the same whatever the database would answer there.
\<close>

theorem census_total_nodes:
  assumes "\<forall>a \<in> set (account_leaves db t (NodeIterator t)). roots_open sdb a"
  shows "(\<exists>count.
            countTrie db (Some t) count0 (Some (processLeaf_closure db sdb)) = Some count \<and>
            Totalnode count = of_nat (census_total db sdb t) \<and>
            (census_total db sdb t < 2 ^ 63 \<longrightarrow>
               sint (Totalnode count) = int (census_total db sdb t))) \<and>
         countTrie db (Some t) count0 (Some (processLeaf_closure db (reopen_empty x sdb))) =
           countTrie db (Some t) count0 (Some (processLeaf_closure db sdb))"
proof -
  from census_nodes_length [OF assms] obtain hs where
    hs: "census_nodes db sdb t (NodeIterator t) = Some hs"
    and l: "length hs = census_total db sdb t"
    by (auto simp: census_total_def)
  have c: "countTrie db (Some t) count0 (Some (processLeaf_closure db sdb)) = Some (tally db hs count0)"
    by (simp add: countTrie_def census_walk hs)
  have n: "Totalnode (tally db hs count0) = of_nat (census_total db sdb t)"
    by (simp add: tally_def count0_def l)
  from c n sint_of_nat_small [of "census_total db sdb t"] show ?thesis
    by (simp add: reopen_empty_closure)
qed

theorem census_total_nodes_witness:
  "map_option Totalnode
     (countTrie (census_db ''pchain'') (Some census_trie) count0
        (Some (processLeaf_closure (census_db ''pchain'') census_sdb))) = Some 5 \<and>
   census_total (census_db ''pchain'') census_sdb census_trie = 2 + (2 + 1) + 0 \<and>
   countTrie (census_db ''pchain'') (Some census_trie) count0
     (Some (processLeaf_closure (census_db ''pchain'') (reopen_empty None census_sdb))) =
   countTrie (census_db ''pchain'') (Some census_trie) count0
     (Some (processLeaf_closure (census_db ''pchain'') census_sdb))"
proof -
  have o: "\<forall>a \<in> set (account_leaves (census_db ''pchain'') census_trie (NodeIterator census_trie)).
             roots_open census_sdb a"
    by (simp add: account_leaves_sample roots_open_def root_opens_def census_sdb_def)
  have t: "census_total (census_db ''pchain'') census_sdb census_trie = 5"
    by (simp add: census_total_def account_leaves_sample account_nodes_def root_nodes_def)
       (simp add: census_sample_defs)
  from census_total_nodes [OF o, of None] t show ?thesis
    by auto
qed

text \<open>
  Claim C8. A leaf whose key, as \<open>GetKey\<close> returns it, is not 20 bytes long is
  passed over: countTrie returns what it returns for the same trie without that leaf,
  whatever the leaf function and the decoder are.
\<close>

theorem countTrie_ignores_short_keys:
  assumes "NodeIterator t = xs @ Leaf k blob # ys" and "length (GetKey t k) \<noteq> 20"
  shows "countTrie db (Some t) count processLeaf =
           countTrie db (Some (t\<lparr>NodeIterator := xs @ ys\<rparr>)) count processLeaf"
proof -
  have skip: "countTrie_nodes db t processLeaf (Leaf k blob # ys) c =
               countTrie_nodes db t processLeaf ys c" for c
    using assms(2) by (cases processLeaf) simp_all
  have "countTrie_nodes db t processLeaf (xs @ Leaf k blob # ys) count =
          countTrie_nodes db t processLeaf (xs @ ys) count"
    unfolding countTrie_nodes_append [of db t processLeaf xs] skip ..
  moreover have "countTrie_nodes db (t\<lparr>NodeIterator := zs\<rparr>) processLeaf its c =
                   countTrie_nodes db t processLeaf its c" for zs its c
    by (induction db t processLeaf its c rule: countTrie_nodes.induct)
       (simp_all add: Let_def split: option.splits)
  ultimately show ?thesis
    by (simp add: countTrie_def assms(1))
qed

theorem countTrie_ignores_short_keys_witness:
  "length (GetKey census_trie [0xB]) \<noteq> 20 \<and>
   countTrie (census_db ''pchain'') (Some census_trie) count0
       (Some (processLeaf_closure (census_db ''pchain'') census_sdb)) =
     countTrie (census_db ''pchain'')
       (Some (census_trie\<lparr>NodeIterator := [Internal (h32 1), Leaf [0xA] [1], Internal (h32 2), Leaf [0xC] [3]]\<rparr>))
       count0 (Some (processLeaf_closure (census_db ''pchain'') census_sdb)) \<and>
   countTrie (census_db ''pchain'')
       (Some (census_trie\<lparr>GetKey := (\<lambda>k. addr20 (hd k))\<rparr>))
       count0 (Some (processLeaf_closure (census_db ''pchain'') census_sdb)) = None"
proof -
  have n: "NodeIterator census_trie =
             [Internal (h32 1), Leaf [0xA] [1], Internal (h32 2)] @ Leaf [0xB] [2] # [Leaf [0xC] [3]]"
    by (simp add: census_trie_def)
  have k: "length (GetKey census_trie [0xB]) \<noteq> 20"
    by (simp add: census_trie_def)
  have q: "census_nodes (census_db ''pchain'') census_sdb
             (census_trie\<lparr>GetKey := (\<lambda>k. addr20 (hd k))\<rparr>) (NodeIterator census_trie) = None"
    by (simp add: census_sample_defs sub_tries_def)
  have p: "countTrie (census_db ''pchain'')
       (Some (census_trie\<lparr>GetKey := (\<lambda>k. addr20 (hd k))\<rparr>))
       count0 (Some (processLeaf_closure (census_db ''pchain'') census_sdb)) = None"
    by (simp add: countTrie_def census_walk q)
  from countTrie_ignores_short_keys [OF n k] k p show ?thesis
    by simp
qed

subsection \<open>The command around the census\<close>

text \<open>
  countBlockState panics when the block or its state is missing, returns no error but
  that of \<^verbatim>\<open>os.OpenFile\<close> (with nothing written), and otherwise writes one line
  for each internal node the census visited and prints the summary.
\<close>

lemma countBlockState_no_block:
  assumes "\<not> length (Args ctx) < 1"
    and "ReadBlock (mk (if Args_Get (Args ctx) 1 = [] then ''pchain'' else Args_Get (Args ctx) 1))
           (ReadCanonicalHash (mk (if Args_Get (Args ctx) 1 = [] then ''pchain'' else Args_Get (Args ctx) 1))
              (fst (ParseUint (Args_First (Args ctx)))))
           (fst (ParseUint (Args_First (Args ctx)))) = None"
  shows "countBlockState mk ctx w = (Panic, w)"
  using assms by (simp add: countBlockState_def Let_def)

lemma countBlockState_no_state:
  assumes "\<not> length (Args ctx) < 1"
    and "chainDb = mk (if Args_Get (Args ctx) 1 = [] then ''pchain'' else Args_Get (Args ctx) 1)"
    and "height = fst (ParseUint (Args_First (Args ctx)))"
    and "ReadBlock chainDb (ReadCanonicalHash chainDb height) height = Some block"
    and "state_New chainDb (header_Root block) = None"
  shows "countBlockState mk ctx w = (Panic, w)"
  using assms by (simp add: countBlockState_def Let_def)

lemma countBlockState_error_is_OpenFile:
  assumes "fst (countBlockState mk ctx w) = Return (Some e)"
  shows "OpenFile_error (mk (if Args_Get (Args ctx) 1 = [] then ''pchain'' else Args_Get (Args ctx) 1))
           ''blockstate_nodedump'' = Some e \<and>
         snd (countBlockState mk ctx w) = w"
  using assms
  by (auto simp: countBlockState_def Let_def split: if_splits option.splits)

lemma countBlockState_run:
  assumes "\<not> length (Args ctx) < 1"
    and "chainDb = mk (if Args_Get (Args ctx) 1 = [] then ''pchain'' else Args_Get (Args ctx) 1)"
    and "height = fst (ParseUint (Args_First (Args ctx)))"
    and "ReadBlock chainDb (ReadCanonicalHash chainDb height) height = Some block"
    and "state_New chainDb (header_Root block) = Some sdb"
    and "OpenTrie sdb (header_Root block) = Some t"
    and "census_nodes chainDb sdb t (NodeIterator t) = Some hs"
    and "OpenFile_error chainDb ''blockstate_nodedump'' = None"
  shows "countBlockState mk ctx w =
           (Return None,
            w\<lparr>ext := (ext w)(''blockstate_nodedump'' \<mapsto>
                        concat (map (\<lambda>h. Hash_String chainDb h @ '' '' @
                                          Bytes2Hex chainDb (fst (db_Get chainDb h)) @ [CHR 0x0A]) hs)),
              out := out w @ [BlockSummary height (Size block) (of_nat (length hs))
                                (of_nat (\<Sum>h\<leftarrow>hs. length (fst (db_Get chainDb h))))]\<rparr>)"
proof -
  have c: "countTrie chainDb (OpenTrie sdb (header_Root block)) count0
             (Some (processLeaf_closure chainDb sdb)) = Some (tally chainDb hs count0)"
    using assms(6,7) by (simp add: countTrie_def census_walk)
  have d: "Data (tally chainDb hs count0) =
             map (\<lambda>h. \<lparr>key = Hash_String chainDb h, value' = Bytes2Hex chainDb (fst (db_Get chainDb h))\<rparr>) hs"
    "Totalnode (tally chainDb hs count0) = of_nat (length hs)"
    "Totalnodevaluesize (tally chainDb hs count0) = of_nat (\<Sum>h\<leftarrow>hs. length (fst (db_Get chainDb h)))"
    by (simp_all add: tally_def count0_def)
  show ?thesis
    using assms(1) assms(4,5,8) [unfolded assms(2,3)] c [unfolded assms(2,3)] d [unfolded assms(2,3)]
    unfolding assms(2,3)
    by (simp add: countBlockState_def Let_def o_def)
qed

lemma ParseUint_7: "ParseUint ''7'' = (7, None)"
  by (simp add: ParseUint_def is_digit_def maxUint64_def Let_def)

lemma ParseUint_8: "ParseUint ''8'' = (8, None)"
  by (simp add: ParseUint_def is_digit_def maxUint64_def Let_def)

lemma ParseUint_5: "ParseUint ''5'' = (5, None)"
  by (simp add: ParseUint_def is_digit_def maxUint64_def Let_def)

lemma countBlockState_sample_run:
  "fst (countBlockState census_db \<lparr>Args = [''5''], NoCompactionFlag = False\<rparr> no_files) = Return None \<and>
   out (snd (countBlockState census_db \<lparr>Args = [''5''], NoCompactionFlag = False\<rparr> no_files)) =
     [BlockSummary 5 600 5 10] \<and>
   ext (snd (countBlockState census_db \<lparr>Args = [''5''], NoCompactionFlag = False\<rparr> no_files))
     ''blockstate_nodedump'' \<noteq> None"
proof -
  let ?ctx = "\<lparr>Args = [''5''], NoCompactionFlag = False\<rparr>"
  have n: "(if Args_Get (Args ?ctx) 1 = [] then ''pchain'' else Args_Get (Args ?ctx) 1) = ''pchain''"
    by (simp add: Args_Get_def)
  have h: "fst (ParseUint (Args_First (Args ?ctx))) = 5"
    by (simp add: Args_First_def Args_Get_def ParseUint_5)
  have r: "countBlockState census_db ?ctx no_files =
     (Return None,
      no_files\<lparr>ext := (ext no_files)(''blockstate_nodedump'' \<mapsto>
                  concat (map (\<lambda>h. Hash_String (census_db ''pchain'') h @ '' '' @
                                    Bytes2Hex (census_db ''pchain'') (fst (db_Get (census_db ''pchain'') h)) @
                                    [CHR 0x0A])
                            [h32 1, h32 0x11, h32 0x12, h32 0x21, h32 2])),
        out := out no_files @
          [BlockSummary 5 (Size \<lparr>Size = 600, header_Root = h32 0x99\<rparr>)
             (of_nat (length [h32 1, h32 0x11, h32 0x12, h32 0x21, h32 2]))
             (of_nat (\<Sum>h\<leftarrow>[h32 1, h32 0x11, h32 0x12, h32 0x21, h32 2].
                        length (fst (db_Get (census_db ''pchain'') h))))]\<rparr>)"
  proof (rule countBlockState_run [where chainDb = "census_db ''pchain''" and sdb = census_sdb
        and t = census_trie])
    show "\<not> length (Args ?ctx) < 1" by simp
    show "census_db ''pchain'' = census_db (if Args_Get (Args ?ctx) 1 = [] then ''pchain''
            else Args_Get (Args ?ctx) 1)"
      by (simp only: n)
    show "5 = fst (ParseUint (Args_First (Args ?ctx)))" by (simp only: h)
    show "ReadBlock (census_db ''pchain'') (ReadCanonicalHash (census_db ''pchain'') 5) 5 =
            Some \<lparr>Size = 600, header_Root = h32 0x99\<rparr>"
      by (simp add: census_db_def)
    show "state_New (census_db ''pchain'') (header_Root \<lparr>Size = 600, header_Root = h32 0x99\<rparr>) =
            Some census_sdb"
      by (simp add: census_db_def)
    show "OpenTrie census_sdb (header_Root \<lparr>Size = 600, header_Root = h32 0x99\<rparr>) = Some census_trie"
      by (simp add: census_sdb_def)
    show "census_nodes (census_db ''pchain'') census_sdb census_trie (NodeIterator census_trie) =
            Some [h32 1, h32 0x11, h32 0x12, h32 0x21, h32 2]"
      by (rule census_nodes_sample)
    show "OpenFile_error (census_db ''pchain'') ''blockstate_nodedump'' = None"
      by (simp add: census_db_def)
  qed
  show ?thesis
    unfolding r by (simp add: no_files_def census_db_def)
qed

text \<open>
  Claim C3, which the code does not meet. When the height has no canonical block, or the
  state of the block is missing, the census is to fail with an error and write nothing,
  as the sibling command \<^verbatim>\<open>dump\<close> does with its nil check and its
  \<^verbatim>\<open>Fatalf\<close>. countBlockState drops the errors and dereferences the nil block or
  the nil state: in the sample database, height 7 (no block) and height 8 (a block whose
  state is missing) both end in a runtime panic. No file is written on the way.
\<close>

theorem countBlockState_missing_block_panics:
  "countBlockState census_db \<lparr>Args = [''7''], NoCompactionFlag = False\<rparr> no_files = (Panic, no_files) \<and>
   countBlockState census_db \<lparr>Args = [''8''], NoCompactionFlag = False\<rparr> no_files = (Panic, no_files)"
  by (simp add: countBlockState_def Let_def Args_Get_def Args_First_def ParseUint_7 ParseUint_8
        census_db_def)

section \<open>Properties of chain import\<close>

lemmas sample_defs =
  sample_env_def sample_world_def Args_First_def Args_Get_def Let_def

lemma import_range_files:
  "import_range E (Suc i) args w =
     w\<lparr>ext := import_each E (ext w) args, out := out w @ import_errors E (ext w) args\<rparr>"
proof (induction args arbitrary: i w)
  case Nil
  show ?case by simp
next
  case (Cons arg args)
  show ?case
    by (cases "ImportChain E (ext w) arg")
       (auto simp: Cons.IH import_file_def split: option.splits)
qed

lemma import_range_skips_name:
  "args \<noteq> [] \<Longrightarrow>
     import_range E 0 args w =
       w\<lparr>ext := import_each E (ext w) (tl args), out := out w @ import_errors E (ext w) (tl args)\<rparr>"
  by (cases args) (simp_all add: import_range_files)

lemma import_each_append:
  "import_each E s (xs @ ys) = import_each E (import_each E s xs) ys"
  by (induction xs arbitrary: s) simp_all

lemma import_each_nth:
  "i < length fns \<Longrightarrow>
     import_each E s (take (Suc i) fns) =
       fst (ImportChain E (import_each E s (take i fns)) (fns ! i))"
  by (simp add: take_Suc_conv_app_nth import_each_append)

lemma import_finish_never_returns_error:
  "fst (import_finish E ctx w) \<noteq> Return (Some e)"
  by (auto simp: import_finish_def Let_def split: prod.splits option.splits)

lemma print_stats_ok:
  assumes "\<forall>s k. snd (db_Stat E s k) = None"
  shows "fst (print_stats E v) = None"
proof -
  obtain x where a: "db_Stat E (ext v) ''leveldb.stats'' = (x, None)"
    using assms by (metis prod.collapse)
  obtain y where b: "db_Stat E (ext v) ''leveldb.iostats'' = (y, None)"
    using assms by (metis prod.collapse)
  show ?thesis by (simp add: print_stats_def a b)
qed

lemma import_finish_returns_nil:
  assumes "\<forall>s k. snd (db_Stat E s k) = None" "\<forall>s. snd (db_Compact E s) = None"
  shows "fst (import_finish E ctx w) = Return None"
proof -
  have p: "\<exists>v'. print_stats E v = (None, v')" for v
    using print_stats_ok [OF assms(1), of v] by (metis prod.collapse)
  have c: "\<exists>t. db_Compact E s = (t, None)" for s
    using assms(2) by (metis prod.collapse)
  let ?w2 = "w\<lparr>ext := chain_Stop E (ext w), out := out w @ [ImportDone]\<rparr>"
  obtain w3 where w3: "print_stats E ?w2 = (None, w3)" using p by blast
  let ?w5 = "w3\<lparr>out := out w3 @ [MemoryStats, Compacting]\<rparr>"
  obtain t where t: "db_Compact E (ext w3) = (t, None)" using c by blast
  let ?w6 = "w3\<lparr>ext := t, out := out w3 @ [MemoryStats, Compacting, CompactionDone]\<rparr>"
  obtain w7 where w7: "print_stats E ?w6 = (None, w7)" using p by blast
  show ?thesis
    by (simp add: import_finish_def Let_def w3 t w7)
qed

text \<open>
  What importChain does with exactly one file path. An error of
  \<^verbatim>\<open>utils.ImportChain\<close> is logged and nothing more: the command goes on with the
  state the import left (the blocks inserted before the error remain), stops the chain,
  prints the statistics and compacts; it never returns the import error, and it returns
  nil whenever the statistics and the compaction succeed.
\<close>

lemma importChain_single_file_logged:
  assumes "Args ctx = [chainName, fn]" and "chainName \<noteq> []"
    and "ImportChain (mk chainName) (ext w) fn = (s, err)"
  shows "importChain mk ctx w =
           import_finish (mk chainName) ctx
             (w\<lparr>ext := s,
                out := out w @ (case err of None \<Rightarrow> []
                                | Some e \<Rightarrow> [LogError ''Import error'' [(''err'', e)]])\<rparr>) \<and>
         (\<forall>e. fst (importChain mk ctx w) \<noteq> Return (Some e)) \<and>
         ((\<forall>s k. snd (db_Stat (mk chainName) s k) = None) \<and>
          (\<forall>s. snd (db_Compact (mk chainName) s) = None) \<longrightarrow>
            fst (importChain mk ctx w) = Return None)"
proof -
  let ?w1 = "w\<lparr>ext := s,
                out := out w @ (case err of None \<Rightarrow> []
                                | Some e \<Rightarrow> [LogError ''Import error'' [(''err'', e)]])\<rparr>"
  have f: "import_file (mk chainName) [] fn w = ?w1"
    using assms(3) by (simp add: import_file_def split: option.splits)
  have eq: "importChain mk ctx w = import_finish (mk chainName) ctx ?w1"
    using assms(1,2) f by (simp add: importChain_def Args_First_def Args_Get_def)
  show ?thesis
    unfolding eq
    using import_finish_never_returns_error [of "mk chainName" ctx ?w1]
      import_finish_returns_nil [of "mk chainName" ctx ?w1]
    by blast
qed

lemma importChain_single_file_logged_example:
  "importChain sample_env \<lparr>Args = [''pchain'', ''bad''], NoCompactionFlag = True\<rparr> sample_world =
     (Return None,
      \<lparr>ext = [''bad/1''],
       out = [LogError ''Import error'' [(''err'', ''decode error'')], ImportDone,
              Println ''leveldb.stats'', Println ''leveldb.iostats'', MemoryStats]\<rparr>)"
proof -
  let ?ctx = "\<lparr>Args = [''pchain'', ''bad''], NoCompactionFlag = True\<rparr>"
  have a: "Args ?ctx = [''pchain'', ''bad'']" by simp
  have b: "''pchain'' \<noteq> []" by simp
  have c: "ImportChain (sample_env ''pchain'') (ext sample_world) ''bad'' =
             ([''bad/1''], Some ''decode error'')"
    by (simp add: sample_defs)
  from importChain_single_file_logged [where mk = sample_env and chainName = "''pchain''", OF a b c]
  have "importChain sample_env ?ctx sample_world =
          import_finish (sample_env ''pchain'') ?ctx
            (sample_world\<lparr>ext := [''bad/1''],
               out := out sample_world @ [LogError ''Import error'' [(''err'', ''decode error'')]]\<rparr>)"
    by simp
  then show ?thesis
    by (simp add: import_finish_def print_stats_def sample_defs)
qed

text \<open>
  Claim C4, which the code does not meet. With exactly one file path an import error is
  to abort the command and be its result; the description of the import command in
  chaincmd.go says the same ("If only one file is used, import error will result in
  failure"). In the sample node the file \<open>bad\<close> does not decode and
  \<^verbatim>\<open>utils.ImportChain\<close> returns the error, yet importChain with that one file runs
  to the end of the compaction and returns nil.
\<close>

theorem importChain_single_file_returns_nil:
  "snd (ImportChain (sample_env ''pchain'') (ext sample_world) ''bad'') = Some ''decode error'' \<and>
   fst (importChain sample_env \<lparr>Args = [''pchain'', ''bad''], NoCompactionFlag = False\<rparr> sample_world)
     = Return None \<and>
   fst (importChain sample_env \<lparr>Args = [''pchain'', ''bad''], NoCompactionFlag = False\<rparr> sample_world)
     \<noteq> Return (Some ''decode error'') \<and>
   CompactionDone \<in> set (out (snd (importChain sample_env
     \<lparr>Args = [''pchain'', ''bad''], NoCompactionFlag = False\<rparr> sample_world)))"
  by (simp add: importChain_def import_finish_def print_stats_def import_file_def sample_defs)

text \<open>
  Claim C5. With more than one file path, every file is handed to
  \<^verbatim>\<open>utils.ImportChain\<close> in the order given, each on the state its predecessors
  left: the file at position \<open>i\<close> is imported whatever the files before it returned.
  The failures are logged with the file name, and the command goes on to its closing
  steps.
\<close>

theorem importChain_files_independent:
  assumes "2 < length (Args ctx)" and "Args_First (Args ctx) \<noteq> []"
  shows "importChain mk ctx w =
           import_finish (mk (Args_First (Args ctx))) ctx
             (w\<lparr>ext := import_each (mk (Args_First (Args ctx))) (ext w) (tl (Args ctx)),
                out := out w @ import_errors (mk (Args_First (Args ctx))) (ext w) (tl (Args ctx))\<rparr>) \<and>
         (\<forall>i < length (tl (Args ctx)).
            import_each (mk (Args_First (Args ctx))) (ext w) (take (Suc i) (tl (Args ctx))) =
              fst (ImportChain (mk (Args_First (Args ctx)))
                     (import_each (mk (Args_First (Args ctx))) (ext w) (take i (tl (Args ctx))))
                     (tl (Args ctx) ! i)))"
proof -
  from assms(1) have ne: "Args ctx \<noteq> []" and n2: "length (Args ctx) \<noteq> 2" and n1: "\<not> length (Args ctx) < 1"
    by auto
  show ?thesis
    using assms(2) n1 n2
    by (simp add: importChain_def Let_def import_range_skips_name [OF ne] import_each_nth)
qed

theorem importChain_files_independent_witness:
  "importChain sample_env \<lparr>Args = [''pchain'', ''a'', ''bad'', ''b''], NoCompactionFlag = True\<rparr>
     sample_world =
     (Return None,
      \<lparr>ext = [''a'', ''bad/1'', ''b''],
       out = [LogError ''Import error'' [(''file'', ''bad''), (''err'', ''decode error'')],
              ImportDone, Println ''leveldb.stats'', Println ''leveldb.iostats'', MemoryStats]\<rparr>)"
proof -
  let ?ctx = "\<lparr>Args = [''pchain'', ''a'', ''bad'', ''b''], NoCompactionFlag = True\<rparr>"
  have a: "2 < length (Args ?ctx)" by simp
  have b: "Args_First (Args ?ctx) \<noteq> []" by (simp add: sample_defs)
  have n: "Args_First (Args ?ctx) = ''pchain''" by (simp add: sample_defs)
  have e: "import_each (sample_env ''pchain'') (ext sample_world) (tl (Args ?ctx)) =
             [''a'', ''bad/1'', ''b'']"
    by (simp add: sample_defs)
  have l: "import_errors (sample_env ''pchain'') (ext sample_world) (tl (Args ?ctx)) =
             [LogError ''Import error'' [(''file'', ''bad''), (''err'', ''decode error'')]]"
    by (simp add: sample_defs)
  from importChain_files_independent [OF a b, of sample_env sample_world]
  have "importChain sample_env ?ctx sample_world =
          import_finish (sample_env ''pchain'') ?ctx
            (sample_world\<lparr>ext := [''a'', ''bad/1'', ''b''],
               out := out sample_world @
                 [LogError ''Import error'' [(''file'', ''bad''), (''err'', ''decode error'')]]\<rparr>)"
    unfolding n e l by simp
  then show ?thesis
    by (simp add: import_finish_def print_stats_def sample_defs)
qed

section \<open>Properties of chain export\<close>

text \<open>
  What the parser refuses: a bound that is empty, or has a byte other than a decimal digit
  after its first byte, or is a single byte that is not a digit, comes back with an error.
\<close>

lemma parse_digits_rejects:
  "\<exists>c \<in> set s. \<not> is_digit c \<Longrightarrow> snd (parse_digits n s) \<noteq> None"
  by (induction n s rule: parse_digits.induct) (auto simp: Let_def)

lemma parse_digits_range:
  "snd (parse_digits n s) = Some ErrRange \<Longrightarrow> fst (parse_digits n s) = maxUint64"
  by (induction n s rule: parse_digits.induct) (auto simp: Let_def split: if_splits)

lemma ParseUint_rejects:
  assumes "s = [] \<or> (\<exists>c \<in> set s. \<not> is_digit c)"
  shows "snd (ParseUint s) \<noteq> None"
proof (cases "s = []")
  case True
  then show ?thesis by (simp add: ParseUint_def)
next
  case False
  obtain v e where pd: "parse_digits 0 s = (v, e)" by (cases "parse_digits 0 s")
  from False assms have "\<exists>c \<in> set s. \<not> is_digit c" by simp
  from parse_digits_rejects [OF this, of 0] pd have "e \<noteq> None" by simp
  with False pd show ?thesis by (simp add: ParseUint_def)
qed

lemma ParseUint_error_cases:
  assumes "snd (ParseUint s) \<noteq> None"
  shows "snd (ParseUint s) = Some ErrSyntax \<or>
         snd (ParseUint s) = Some ErrRange \<and> unat (fst (ParseUint s)) = 2 ^ 64 - 1"
proof (cases "s = []")
  case True
  then show ?thesis by (simp add: ParseUint_def)
next
  case False
  obtain v e where pd: "parse_digits 0 s = (v, e)" by (cases "parse_digits 0 s")
  with False have u: "ParseUint s = (of_nat v, e)" by (simp add: ParseUint_def)
  from assms u obtain x where x: "e = Some x" by auto
  show ?thesis
  proof (cases x)
    case ErrSyntax
    with u x show ?thesis by simp
  next
    case ErrRange
    with x pd parse_digits_range [of 0 s] have "v = maxUint64" by simp
    with u x ErrRange show ?thesis by (simp add: maxUint64_def)
  qed
qed

lemma clamp_int64_error:
  "snd r = Some ErrSyntax \<or> snd r = Some ErrRange \<and> unat (fst r) = 2 ^ 64 - 1 \<Longrightarrow>
     snd (clamp_int64 neg r) \<noteq> None"
  by (cases r) (auto simp: clamp_int64_def)

lemma ParseInt_rejects:
  assumes "s = [] \<or> tl s = [] \<and> \<not> is_digit (hd s) \<or> (\<exists>c \<in> set (tl s). \<not> is_digit c)"
  shows "snd (ParseInt s) \<noteq> None"
proof (cases s)
  case Nil
  then show ?thesis by (simp add: ParseInt_def)
next
  case (Cons a cs)
  let ?r = "if a = CHR ''+'' \<or> a = CHR ''-'' then cs else a # cs"
  from assms Cons have "?r = [] \<or> (\<exists>c \<in> set ?r. \<not> is_digit c)"
    by auto
  from clamp_int64_error [OF ParseUint_error_cases [OF ParseUint_rejects [OF this]]]
  have "snd (clamp_int64 (a = CHR ''-'') (ParseUint ?r)) \<noteq> None" .
  moreover have "ParseInt s = clamp_int64 (a = CHR ''-'') (ParseUint ?r)"
    unfolding ParseInt_def Cons by simp
  ultimately show ?thesis by simp
qed

lemma ParseInt_minus_1: "ParseInt ''-1'' = (- 1, None)"
  by (simp add: ParseInt_def clamp_int64_def ParseUint_def is_digit_def maxUint64_def Let_def)

lemma ParseInt_5: "ParseInt ''5'' = (5, None)"
  by (simp add: ParseInt_def clamp_int64_def ParseUint_def is_digit_def maxUint64_def Let_def)

lemma ParseInt_letter: "ParseInt ''1x'' = (0, Some ErrSyntax)"
  by (simp add: ParseInt_def clamp_int64_def ParseUint_def is_digit_def maxUint64_def Let_def)

lemma exportChain_unranged:
  assumes "length (Args ctx) < 4" and "\<not> length (Args ctx) < 1" and "Args_First (Args ctx) \<noteq> []"
  shows "exportChain mk ctx w =
           export_finish (ExportChain (mk (Args_First (Args ctx))) (ext w) (Args_Get (Args ctx) 1)) w"
  using assms by (simp add: exportChain_def Let_def)

text \<open>
  Claim C6. A ranged export (both bounds present) whose first or last bound does not
  parse, or parses to a negative number, ends in \<^verbatim>\<open>utils.Fatalf\<close> with the outside
  state and the output exactly as they were: neither export helper has run, whatever the
  helpers would do.
\<close>

theorem exportChain_rejects_bad_range:
  assumes "4 \<le> length (Args ctx)"
    and "snd (ParseInt (Args ctx ! 2)) \<noteq> None \<or> snd (ParseInt (Args ctx ! 3)) \<noteq> None \<or>
         fst (ParseInt (Args ctx ! 2)) <s 0 \<or> fst (ParseInt (Args ctx ! 3)) <s 0"
  shows "\<exists>m. exportChain mk ctx w = (Fatalf m, w)"
proof -
  from assms(1) have g: "Args_Get (Args ctx) 2 = Args ctx ! 2" "Args_Get (Args ctx) 3 = Args ctx ! 3"
    and n: "\<not> length (Args ctx) < 4" "\<not> length (Args ctx) < 1"
    by (auto simp: Args_Get_def)
  obtain first ferr where f: "ParseInt (Args ctx ! 2) = (first, ferr)" by (cases "ParseInt (Args ctx ! 2)")
  obtain last lerr where l: "ParseInt (Args ctx ! 3) = (last, lerr)" by (cases "ParseInt (Args ctx ! 3)")
  from assms(2) f l have bad: "ferr \<noteq> None \<or> lerr \<noteq> None \<or> first <s 0 \<or> last <s 0"
    by simp
  show ?thesis
  proof (cases "Args_First (Args ctx) = []")
    case True
    then show ?thesis using n by (simp add: exportChain_def)
  next
    case False
    show ?thesis
    proof (cases "ferr \<noteq> None \<or> lerr \<noteq> None")
      case True
      with False n show ?thesis by (simp add: exportChain_def Let_def g f l)
    next
      case nf: False
      with bad have "first <s 0 \<or> last <s 0" by blast
      with nf False n show ?thesis by (simp add: exportChain_def Let_def g f l)
    qed
  qed
qed

theorem exportChain_rejects_bad_range_witness:
  "exportChain sample_env \<lparr>Args = [''pchain'', ''f'', ''-1'', ''5''], NoCompactionFlag = False\<rparr>
     sample_world =
     (Fatalf (''Export error: block number must be greater than 0'' @ [CHR 0x0A]), sample_world) \<and>
   exportChain sample_env \<lparr>Args = [''pchain'', ''f'', ''5'', ''1x''], NoCompactionFlag = False\<rparr>
     sample_world =
     (Fatalf (''Export error in parsing parameters: block number not an integer'' @ [CHR 0x0A]),
      sample_world)"
proof -
  let ?c1 = "\<lparr>Args = [''pchain'', ''f'', ''-1'', ''5''], NoCompactionFlag = False\<rparr>"
  let ?c2 = "\<lparr>Args = [''pchain'', ''f'', ''5'', ''1x''], NoCompactionFlag = False\<rparr>"
  have neg: "(- 1 :: 64 word) <s 0" by (simp add: word_sless_alt)
  have h1: "snd (ParseInt (Args ?c1 ! 2)) \<noteq> None \<or> snd (ParseInt (Args ?c1 ! 3)) \<noteq> None \<or>
            fst (ParseInt (Args ?c1 ! 2)) <s 0 \<or> fst (ParseInt (Args ?c1 ! 3)) <s 0"
    using neg by (simp add: ParseInt_minus_1)
  have h2: "snd (ParseInt (Args ?c2 ! 2)) \<noteq> None \<or> snd (ParseInt (Args ?c2 ! 3)) \<noteq> None \<or>
            fst (ParseInt (Args ?c2 ! 2)) <s 0 \<or> fst (ParseInt (Args ?c2 ! 3)) <s 0"
    by (simp add: ParseInt_letter)
  from exportChain_rejects_bad_range [OF _ h1, of sample_env sample_world]
  have s1: "snd (exportChain sample_env ?c1 sample_world) = sample_world" by auto
  from exportChain_rejects_bad_range [OF _ h2, of sample_env sample_world]
  have s2: "snd (exportChain sample_env ?c2 sample_world) = sample_world" by auto
  have f1: "fst (exportChain sample_env ?c1 sample_world) =
              Fatalf (''Export error: block number must be greater than 0'' @ [CHR 0x0A])"
    using neg by (simp add: exportChain_def sample_defs ParseInt_minus_1 ParseInt_5)
  have f2: "fst (exportChain sample_env ?c2 sample_world) =
              Fatalf (''Export error in parsing parameters: block number not an integer'' @ [CHR 0x0A])"
    by (simp add: exportChain_def sample_defs ParseInt_letter ParseInt_5)
  from s1 f1 s2 f2 show ?thesis by (simp add: prod_eq_iff)
qed

text \<open>
  Claim C9. With exactly three arguments (chain name, file path and one number) the
  number is not read: the command does what it does for the first two arguments alone,
  the full export of \<^verbatim>\<open>utils.ExportChain\<close>. With fewer than four arguments the
  appending helper \<^verbatim>\<open>utils.ExportAppendChain\<close> plays no part in the result.
\<close>

theorem exportChain_lone_bound_ignored:
  "(length (Args ctx) = 3 \<longrightarrow>
      exportChain mk ctx w = exportChain mk (ctx\<lparr>Args := take 2 (Args ctx)\<rparr>) w \<and>
      (Args ctx ! 0 \<noteq> [] \<longrightarrow>
         exportChain mk ctx w =
           export_finish (ExportChain (mk (Args ctx ! 0)) (ext w) (Args ctx ! 1)) w)) \<and>
   (length (Args ctx) < 4 \<longrightarrow>
      exportChain (\<lambda>n. (mk n)\<lparr>ExportAppendChain := g\<rparr>) ctx w = exportChain mk ctx w)"
proof (intro conjI impI)
  assume "length (Args ctx) < 4"
  then show "exportChain (\<lambda>n. (mk n)\<lparr>ExportAppendChain := g\<rparr>) ctx w = exportChain mk ctx w"
    by (simp add: exportChain_def Let_def)
next
  assume l: "length (Args ctx) = 3"
  then show "exportChain mk ctx w = exportChain mk (ctx\<lparr>Args := take 2 (Args ctx)\<rparr>) w"
    by (simp add: exportChain_def Let_def Args_First_def Args_Get_def)
  assume "Args ctx ! 0 \<noteq> []"
  with l show "exportChain mk ctx w =
      export_finish (ExportChain (mk (Args ctx ! 0)) (ext w) (Args ctx ! 1)) w"
    by (simp add: exportChain_def Let_def Args_First_def Args_Get_def)
qed

theorem exportChain_lone_bound_ignored_witness:
  "exportChain sample_env \<lparr>Args = [''pchain'', ''f'', ''-7''], NoCompactionFlag = False\<rparr>
     sample_world =
     (Return None, \<lparr>ext = [''export all to f''], out = [ExportDone]\<rparr>) \<and>
   exportChain sample_env \<lparr>Args = [''pchain'', ''f''], NoCompactionFlag = False\<rparr> sample_world =
     (Return None, \<lparr>ext = [''export all to f''], out = [ExportDone]\<rparr>)"
proof -
  let ?c = "\<lparr>Args = [''pchain'', ''f'', ''-7''], NoCompactionFlag = False\<rparr>"
  have l: "length (Args ?c) = 3" by simp
  have n: "Args ?c ! 0 \<noteq> []" by simp
  from exportChain_lone_bound_ignored [of ?c sample_env sample_world undefined] l n
  have a: "exportChain sample_env ?c sample_world =
             exportChain sample_env (?c\<lparr>Args := take 2 (Args ?c)\<rparr>) sample_world"
    and b: "exportChain sample_env ?c sample_world =
             export_finish (ExportChain (sample_env (Args ?c ! 0)) (ext sample_world) (Args ?c ! 1))
               sample_world"
    by blast+
  have t: "?c\<lparr>Args := take 2 (Args ?c)\<rparr> = \<lparr>Args = [''pchain'', ''f''], NoCompactionFlag = False\<rparr>"
    by (simp add: numeral_2_eq_2)
  have v: "export_finish (ExportChain (sample_env (Args ?c ! 0)) (ext sample_world) (Args ?c ! 1))
             sample_world = (Return None, \<lparr>ext = [''export all to f''], out = [ExportDone]\<rparr>)"
    by (simp add: export_finish_def sample_defs)
  from a b t v show ?thesis by simp
qed

section \<open>Properties of the peak-memory observer\<close>

lemma sample_step_max:
  "sample_step stats p =
     \<lparr>peakMemAlloc = max (peakMemAlloc p) (Alloc stats), peakMemSys = max (peakMemSys p) (Sys stats)\<rparr>"
  by (simp add: sample_step_def Let_def max_def not_less)

lemma observer_mono_step:
  "peakMemAlloc (observer mem n) \<le> peakMemAlloc (observer mem (Suc n)) \<and>
   peakMemSys (observer mem n) \<le> peakMemSys (observer mem (Suc n))"
  by (simp add: sample_step_max)

lemma observer_mono:
  "m \<le> n \<Longrightarrow>
     peakMemAlloc (observer mem m) \<le> peakMemAlloc (observer mem n) \<and>
     peakMemSys (observer mem m) \<le> peakMemSys (observer mem n)"
proof (induction n)
  case 0
  then show ?case by simp
next
  case (Suc n)
  show ?case
  proof (cases "m = Suc n")
    case True
    then show ?thesis by simp
  next
    case False
    with Suc.prems have "m \<le> n" by simp
    from Suc.IH [OF this] observer_mono_step [of mem n] show ?thesis
      by (meson order_trans)
  qed
qed

text \<open>
  Claim C7. After every sampling turn each recorded peak is the maximum of its previous
  value and the sampled value, and over any number of further turns neither peak
  decreases.
\<close>

theorem peak_memory_monotone:
  "peakMemAlloc (observer mem (Suc n)) = max (peakMemAlloc (observer mem n)) (Alloc (mem n)) \<and>
   peakMemSys (observer mem (Suc n)) = max (peakMemSys (observer mem n)) (Sys (mem n)) \<and>
   (m \<le> n \<longrightarrow>
      peakMemAlloc (observer mem m) \<le> peakMemAlloc (observer mem n) \<and>
      peakMemSys (observer mem m) \<le> peakMemSys (observer mem n))"
  using observer_mono [of m n mem] by (simp add: sample_step_max)

theorem peak_memory_monotone_witness:
  "peakMemAlloc (observer mem_example 2) = 7 \<and>
   peakMemSys (observer mem_example 2) = 12 \<and>
   (1::nat) \<le> 2 \<and>
   peakMemAlloc (observer mem_example 1) \<le> peakMemAlloc (observer mem_example 2) \<and>
   peakMemSys (observer mem_example 1) \<le> peakMemSys (observer mem_example 2)"
proof -
  have s1: "observer mem_example 1 = \<lparr>peakMemAlloc = 7, peakMemSys = 9\<rparr>"
    by (simp add: sample_step_max mem_example_def)
  have "observer mem_example 2 = sample_step (mem_example 1) (observer mem_example 1)"
    by (simp add: numeral_2_eq_2)
  then have s2: "observer mem_example 2 = \<lparr>peakMemAlloc = 7, peakMemSys = 12\<rparr>"
    by (simp add: s1 sample_step_max mem_example_def)
  from peak_memory_monotone [of mem_example 1 1] s1 s2 show ?thesis
    by simp
qed

section \<open>Properties of the service lifecycle\<close>

lemma logf_simps [simp]:
  "started (logf l bs) = started bs" "stopped (logf l bs) = stopped bs"
  "Quit (logf l bs) = Quit bs" "impl_state (logf l bs) = impl_state bs" "name (logf l bs) = name bs"
  by (simp_all add: logf_def split: option.splits)

lemma logf_logger: "\<exists>l. logf x bs = bs\<lparr>logger := l\<rparr>"
  by (cases "logger bs") (auto simp: logf_def intro: exI [of _ "logger bs"])

lemma logf_flags_ok [simp]: "flags_ok (logf l bs) = flags_ok bs"
  by (simp add: flags_ok_def)

lemma before_OnStart_flags:
  "started (before_OnStart v bs) = v"
  "stopped (before_OnStart v bs) = (if stopped bs = 1 then 0 else stopped bs)"
  by (simp_all add: before_OnStart_def Let_def)

lemma Start_flags_ok:
  assumes "hooks_ok impl" "flags_ok bs" "Start impl bs = Some (r, bs')"
  shows "flags_ok bs'"
proof (cases "started bs = 0")
  case False
  with assms(2,3) show ?thesis by (auto simp: Start_def CompareAndSwapUint32_def)
next
  case True
  with assms(3) have a: "after_OnStart (OnStart impl (before_OnStart 1 bs)) = Some (r, bs')"
    by (simp add: Start_def CompareAndSwapUint32_def)
  then obtain b4 e where h: "OnStart impl (before_OnStart 1 bs) = Some (b4, e)"
    by (auto simp: after_OnStart_def split: option.splits)
  have "flags_ok (before_OnStart 1 bs)"
    using assms(2) by (auto simp: flags_ok_def before_OnStart_flags)
  with assms(1) h have "flags_ok b4" unfolding hooks_ok_def by blast
  with a h show ?thesis
    by (cases e) (auto simp: after_OnStart_def flags_ok_def)
qed

lemma Stop_flags_ok:
  assumes "hooks_ok impl" "flags_ok bs" "Stop impl bs = Some (r, bs')"
  shows "flags_ok bs'"
proof (cases "stopped bs = 0")
  case False
  with assms(2,3) show ?thesis by (auto simp: Stop_def CompareAndSwapUint32_def)
next
  case True
  let ?b1 = "logf (Stopping (name bs)) (bs\<lparr>stopped := 1\<rparr>)"
  from True assms(3) obtain b2 where h: "OnStop impl ?b1 = Some b2"
    by (auto simp: Stop_def CompareAndSwapUint32_def split: option.splits)
  have "flags_ok ?b1" using assms(2) by (simp add: flags_ok_def)
  with assms(1) h have "flags_ok b2" unfolding hooks_ok_def by blast
  with True assms(3) h show ?thesis
    by (auto simp: Stop_def CompareAndSwapUint32_def Let_def flags_ok_def split: chan.splits if_splits)
qed

lemma Reset_flags_ok:
  assumes "hooks_ok impl" "flags_ok bs" "Reset impl bs = Some (r, bs')"
  shows "flags_ok bs'"
proof (cases "stopped bs = 1")
  case False
  with assms(2,3) show ?thesis by (auto simp: Reset_def CompareAndSwapUint32_def)
next
  case True
  from True assms(3) obtain e where h: "OnReset impl (before_OnReset 0 bs) = Some (bs', e)"
    by (auto simp: Reset_def CompareAndSwapUint32_def split: option.splits)
  have "flags_ok (before_OnReset 0 bs)"
    using assms(2) by (auto simp: flags_ok_def before_OnReset_def CompareAndSwapUint32_def Let_def)
  with assms(1) h show ?thesis unfolding hooks_ok_def by blast
qed

lemma reachable_flags_ok:
  assumes "hooks_ok impl"
  shows "reachable impl bs \<Longrightarrow> flags_ok bs"
proof (induction rule: reachable.induct)
  case (reachable_New lg nm st)
  show ?case by (simp add: flags_ok_def NewBaseService_def)
next
  case (reachable_Start bs r bs')
  then show ?case using Start_flags_ok [OF assms] by blast
next
  case (reachable_Stop bs b bs')
  then show ?case using Stop_flags_ok [OF assms] by blast
next
  case (reachable_Reset bs r bs')
  then show ?case using Reset_flags_ok [OF assms] by blast
qed

lemma Start_success:
  assumes "keeps_flags (OnStart impl)" "stopped bs = 0 \<or> stopped bs = 1"
    and "Start impl bs = Some ((True, None), bs1)"
  shows "IsRunning bs1"
proof -
  from assms(3) have s: "started bs = 0"
    by (auto simp: Start_def CompareAndSwapUint32_def split: if_splits)
  with assms(3) have a: "after_OnStart (OnStart impl (before_OnStart 1 bs)) = Some ((True, None), bs1)"
    by (simp add: Start_def CompareAndSwapUint32_def)
  then obtain b4 where h: "OnStart impl (before_OnStart 1 bs) = Some (b4, None)"
    and b: "bs1 = logf (Started (name b4)) b4"
    by (auto simp: after_OnStart_def split: option.splits)
  from assms(1) [unfolded keeps_flags_def, rule_format, OF h]
  have "started b4 = 1" "stopped b4 = (if stopped bs = 1 then 0 else stopped bs)"
    by (simp_all add: before_OnStart_flags)
  with assms(2) b show ?thesis by (auto simp: IsRunning_def)
qed

lemma Start_running:
  "IsRunning bs \<Longrightarrow> Start impl bs = Some ((False, None), logf (NotStarting (name bs)) bs)"
  by (simp add: Start_def CompareAndSwapUint32_def IsRunning_def)

lemma Reset_running:
  "IsRunning bs \<Longrightarrow> Reset impl bs = Some ((False, None), logf (CantReset (name bs)) bs)"
  by (simp add: Reset_def CompareAndSwapUint32_def IsRunning_def)

lemma run_calls_running:
  "IsRunning bs \<Longrightarrow> \<exists>l. run_calls impl cs bs = Some (bs\<lparr>logger := l\<rparr>)"
proof (induction cs arbitrary: bs)
  case Nil
  show ?case by (auto intro: exI [of _ "logger bs"])
next
  case (Cons c cs)
  have step: "\<exists>l. run_calls impl cs (logf x bs) = Some (bs\<lparr>logger := l\<rparr>)" for x
  proof -
    obtain l' where l': "logf x bs = bs\<lparr>logger := l'\<rparr>" using logf_logger by blast
    have "IsRunning (bs\<lparr>logger := l'\<rparr>)" using Cons.prems by (simp add: IsRunning_def)
    from Cons.IH [OF this] show ?thesis by (simp add: l')
  qed
  show ?case
  proof (cases c)
    case CallStart
    with step show ?thesis by (simp add: Start_running [OF Cons.prems])
  next
    case CallReset
    with step show ?thesis by (simp add: Reset_running [OF Cons.prems])
  next
    case CallIsRunning
    with Cons.IH [OF Cons.prems] show ?thesis by simp
  next
    case CallString
    with Cons.IH [OF Cons.prems] show ?thesis by simp
  qed
qed

lemma Start_failure:
  assumes "started bs = 0" "OnStart impl (before_OnStart 1 bs) = Some (b4, Some e)"
  shows "Start impl bs = Some ((False, Some e), logf (StartingFailed e) (b4\<lparr>started := 0\<rparr>))"
  using assms by (simp add: Start_def CompareAndSwapUint32_def after_OnStart_def)

lemma Start_invokes:
  "started bs = 0 \<Longrightarrow> Start impl bs = after_OnStart (OnStart impl (before_OnStart 1 bs))"
  by (simp add: Start_def CompareAndSwapUint32_def)

text \<open>
  Claim C10, as the code has it, in two parts.
  First, for a service a program can hold, with hooks that leave the flags 0 or 1 and an
  \<open>OnStart\<close> that returns with both flags as it found them: when \<open>Start\<close>
  returns \<open>(true, nil)\<close> the service is running, and after any sequence of further
  calls other than \<open>Stop\<close> the service is what it was but for the log, is still
  running, and \<open>Start\<close> returns \<open>(false, nil)\<close> with a log line and nothing
  else, whatever the hooks are: \<open>OnStart\<close> is not called.
  Second, for every service and every hook: when \<open>Start\<close> calls \<open>OnStart\<close>
  and the hook returns an error \<open>e\<close> and the service \<open>b4\<close>, \<open>Start\<close>
  returns \<open>(false, e)\<close> with the started flag back at 0, the service is not running,
  and the next \<open>Start\<close> calls the hook again.
\<close>

theorem Start_lifecycle:
  shows "(hooks_ok impl \<and> reachable impl bs \<and> keeps_flags (OnStart impl) \<and>
          Start impl bs = Some ((True, None), bs1) \<longrightarrow>
            IsRunning bs1 \<and>
            (\<forall>cs. \<exists>l. run_calls impl cs bs1 = Some (bs1\<lparr>logger := l\<rparr>) \<and>
                      IsRunning (bs1\<lparr>logger := l\<rparr>) \<and>
                      Start impl (bs1\<lparr>logger := l\<rparr>) =
                        Some ((False, None), logf (NotStarting (name bs1)) (bs1\<lparr>logger := l\<rparr>)))) \<and>
         (started bs = 0 \<and> OnStart impl (before_OnStart 1 bs) = Some (b4, Some e) \<longrightarrow>
            Start impl bs = Some ((False, Some e), logf (StartingFailed e) (b4\<lparr>started := 0\<rparr>)) \<and>
            started (logf (StartingFailed e) (b4\<lparr>started := 0\<rparr>)) = 0 \<and>
            \<not> IsRunning (logf (StartingFailed e) (b4\<lparr>started := 0\<rparr>)) \<and>
            Start impl (logf (StartingFailed e) (b4\<lparr>started := 0\<rparr>)) =
              after_OnStart (OnStart impl
                (before_OnStart 1 (logf (StartingFailed e) (b4\<lparr>started := 0\<rparr>)))))"
proof (intro conjI impI allI)
  assume h: "hooks_ok impl \<and> reachable impl bs \<and> keeps_flags (OnStart impl) \<and>
             Start impl bs = Some ((True, None), bs1)"
  then have hk: "hooks_ok impl" and re: "reachable impl bs" and kf: "keeps_flags (OnStart impl)"
    and ok: "Start impl bs = Some ((True, None), bs1)" by simp_all
  from reachable_flags_ok [OF hk re] have "stopped bs = 0 \<or> stopped bs = 1"
    by (simp add: flags_ok_def)
  from Start_success [OF kf this ok] show run: "IsRunning bs1" .
  fix cs
  from run_calls_running [OF run, of impl cs] obtain l where
    l: "run_calls impl cs bs1 = Some (bs1\<lparr>logger := l\<rparr>)" by blast
  have r: "IsRunning (bs1\<lparr>logger := l\<rparr>)" using run by (simp add: IsRunning_def)
  from l r Start_running [OF r, of impl]
  show "\<exists>l. run_calls impl cs bs1 = Some (bs1\<lparr>logger := l\<rparr>) \<and>
            IsRunning (bs1\<lparr>logger := l\<rparr>) \<and>
            Start impl (bs1\<lparr>logger := l\<rparr>) =
              Some ((False, None), logf (NotStarting (name bs1)) (bs1\<lparr>logger := l\<rparr>))"
    by auto
next
  assume a: "started bs = 0 \<and> OnStart impl (before_OnStart 1 bs) = Some (b4, Some e)"
  then show "Start impl bs = Some ((False, Some e), logf (StartingFailed e) (b4\<lparr>started := 0\<rparr>))"
    by (simp add: Start_failure)
  show z: "started (logf (StartingFailed e) (b4\<lparr>started := 0\<rparr>)) = 0" by simp
  then show "\<not> IsRunning (logf (StartingFailed e) (b4\<lparr>started := 0\<rparr>))"
    by (simp add: IsRunning_def)
  from Start_invokes [OF z]
  show "Start impl (logf (StartingFailed e) (b4\<lparr>started := 0\<rparr>)) =
          after_OnStart (OnStart impl
            (before_OnStart 1 (logf (StartingFailed e) (b4\<lparr>started := 0\<rparr>))))" .
qed

lemma hooks_ok_flaky: "hooks_ok flaky"
  by (simp add: hooks_ok_def flaky_def flags_ok_def)

lemma keeps_flags_flaky: "keeps_flags (OnStart flaky)"
  by (auto simp: keeps_flags_def flaky_def)

lemma svc0_first: "Start flaky svc0 = Some ((False, Some ''boom''), svc1)"
  by (simp add: svc0_def svc1_def NewBaseService_def Start_def CompareAndSwapUint32_def logf_def
        flaky_def before_OnStart_def after_OnStart_def Let_def)

lemma svc1_second: "Start flaky svc1 = Some ((True, None), svc2)"
  by (simp add: svc1_def svc2_def Start_def CompareAndSwapUint32_def logf_def flaky_def
        before_OnStart_def after_OnStart_def Let_def)

theorem Start_lifecycle_witness:
  "hooks_ok flaky \<and> keeps_flags (OnStart flaky) \<and> reachable flaky svc0 \<and>
   Start flaky svc0 = Some ((False, Some ''boom''), svc1) \<and>
   started svc1 = 0 \<and> \<not> IsRunning svc1 \<and>
   Start flaky svc1 = Some ((True, None), svc2) \<and>
   IsRunning svc2 \<and> impl_state svc2 = 2 \<and>
   (\<exists>l. run_calls flaky [CallReset, CallStart, CallIsRunning, CallString, CallStart] svc2 =
            Some (svc2\<lparr>logger := l\<rparr>) \<and>
        Start flaky (svc2\<lparr>logger := l\<rparr>) =
            Some ((False, None), logf (NotStarting (name svc2)) (svc2\<lparr>logger := l\<rparr>)))"
proof -
  let ?mid = "svc1\<lparr>logger := Some [Starting ''svc''], started := 1\<rparr>"
  have r0: "reachable flaky svc0"
    unfolding svc0_def by (rule reachable_New)
  have r1: "reachable flaky svc1"
    by (rule reachable_Start [OF r0 svc0_first])
  have h0: "started svc0 = 0 \<and> OnStart flaky (before_OnStart 1 svc0) = Some (?mid, Some ''boom'')"
    by (simp add: svc0_def svc1_def NewBaseService_def flaky_def before_OnStart_def logf_def Let_def)
  have m: "logf (StartingFailed ''boom'') (?mid\<lparr>started := 0\<rparr>) = svc1"
    by (simp add: svc1_def logf_def)
  from Start_lifecycle [of flaky svc0 undefined ?mid "''boom''"] h0
  have a: "Start flaky svc0 = Some ((False, Some ''boom''), svc1) \<and> started svc1 = 0 \<and>
           \<not> IsRunning svc1"
    unfolding m by blast
  from Start_lifecycle [of flaky svc1 svc2 undefined undefined]
    hooks_ok_flaky r1 keeps_flags_flaky svc1_second
  have b: "IsRunning svc2 \<and>
           (\<exists>l. run_calls flaky [CallReset, CallStart, CallIsRunning, CallString, CallStart] svc2 =
                    Some (svc2\<lparr>logger := l\<rparr>) \<and>
                Start flaky (svc2\<lparr>logger := l\<rparr>) =
                    Some ((False, None), logf (NotStarting (name svc2)) (svc2\<lparr>logger := l\<rparr>)))"
    by blast
  have c: "impl_state svc2 = 2" by (simp add: svc2_def)
  from hooks_ok_flaky keeps_flags_flaky r0 a svc1_second b c show ?thesis
    by blast
qed

lemma Stop_stopper: "Stop stopper bs = Stop quiet bs"
proof -
  have "OnStop stopper = OnStop quiet" by (simp add: stopper_def quiet_def)
  then show ?thesis by (simp only: Stop_def)
qed

lemma OnStart_stopper:
  "OnStart stopper \<lparr>logger = None, name = ''svc'', started = 1, stopped = 0, Quit = Open, impl_state = n\<rparr>
     = Some (halted (Suc n), None)"
  by (simp add: stopper_def Stop_def quiet_def CompareAndSwapUint32_def logf_def halted_def Let_def)

lemma before_OnStart_new:
  "before_OnStart 1 (NewBaseService None ''svc'' 0) =
     \<lparr>logger = None, name = ''svc'', started = 1, stopped = 0, Quit = Open, impl_state = 0\<rparr>"
  by (simp add: before_OnStart_def NewBaseService_def logf_def Let_def)

lemma before_OnStart_halted:
  "before_OnStart 1 (halted n) =
     \<lparr>logger = None, name = ''svc'', started = 1, stopped = 0, Quit = Open, impl_state = n\<rparr>"
  by (simp add: before_OnStart_def halted_def logf_def Let_def)

lemma Start_stopper:
  "Start stopper (NewBaseService None ''svc'' 0) = Some ((True, None), halted 1)"
  "Start stopper (halted 1) = Some ((True, None), halted 2)"
proof -
  have a: "started (NewBaseService None ''svc'' (0::nat)) = 0" "started (halted 1) = 0"
    by (simp_all add: NewBaseService_def halted_def)
  have l: "logf x (halted n) = halted n" for x n
    by (simp add: logf_def halted_def)
  show "Start stopper (NewBaseService None ''svc'' 0) = Some ((True, None), halted 1)"
    by (simp add: Start_invokes [OF a(1)] before_OnStart_new OnStart_stopper after_OnStart_def l)
  have "OnStart stopper (before_OnStart 1 (halted 1)) = Some (halted 2, None)"
    using OnStart_stopper [of 1] by (simp only: before_OnStart_halted Suc_1)
  then show "Start stopper (halted 1) = Some ((True, None), halted 2)"
    by (simp only: Start_invokes [OF a(2)] after_OnStart_def option.case prod.case l)
qed

lemma hooks_ok_stopper: "hooks_ok stopper"
proof -
  have q: "hooks_ok quiet" by (auto simp: hooks_ok_def quiet_def)
  have "flags_ok b'" if "flags_ok b" "OnStart stopper b = Some (b', e)" for b b' e
  proof -
    from that(2) obtain r where "Stop quiet (b\<lparr>impl_state := Suc (impl_state b)\<rparr>) = Some (r, b')"
      by (auto simp: stopper_def split: option.splits)
    moreover have "flags_ok (b\<lparr>impl_state := Suc (impl_state b)\<rparr>)"
      using that(1) by (simp add: flags_ok_def)
    ultimately show ?thesis using Stop_flags_ok [OF q] by blast
  qed
  then show ?thesis
    unfolding hooks_ok_def by (auto simp: stopper_def)
qed

text \<open>
  Claim C10 as it is worded, for every hook, fails. The \<open>OnStart\<close> of \<open>stopper\<close>
  calls \<open>Stop\<close> on its own service, which \<open>Start\<close> has just marked as started:
  \<open>Start\<close> on a new service returns \<open>(true, nil)\<close> and leaves it not running, and
  the next \<open>Start\<close>, with no call in between, runs \<open>OnStart\<close> again and returns
  \<open>(true, nil)\<close> again.
\<close>

theorem Start_reentrant_Stop_counterexample:
  "Start stopper (NewBaseService None ''svc'' 0) = Some ((True, None), halted 1) \<and>
   \<not> IsRunning (halted 1) \<and>
   Start stopper (halted 1) = Some ((True, None), halted 2) \<and>
   impl_state (halted 2) = 2"
proof -
  have "\<not> IsRunning (halted 1)" by (simp add: halted_def IsRunning_def)
  moreover have "impl_state (halted 2) = 2" by (simp add: halted_def)
  ultimately show ?thesis using Start_stopper by simp
qed

end
